theory Spec2Isabelle
  imports Main "HOL-Library.Word" "HOL-Library.Char_ord"
begin

unbundle bit_operations_syntax

section \<open>libmachine/host: the Host record and its lifecycle operations\<close>

subsection \<open>States, errors and the driver contract\<close>

text \<open>
  Modelled from the spec: the package \<open>state\<close> is not part of the sources at hand. The
  spec lists the values of \<open>state.State\<close>; \<open>host.go\<close> itself only names
  \<open>state.Running\<close> and \<open>state.Stopped\<close> and compares states for equality.
\<close>

datatype State = Starting | Running | Paused | Stopping | Stopped | Error | Timeout | Saved

text \<open>
  Error values a driver can hand back. \<open>UpdateConfig\<close> observes such a value in two ways:
  \<open>errors.As(err, &e)\<close> with \<open>e\<close> of type \<open>rpc.ServerError\<close> walks the chain of wrapped
  errors looking for an \<open>rpc.ServerError\<close>, and \<open>err.Error()\<close> reads the message of the
  outermost error. \<open>rpc.ServerError\<close> is a string type whose message is the string itself;
  \<open>ErrorString\<close> stands for any error that is not an \<open>rpc.ServerError\<close> and wraps nothing
  (as made by \<open>errors.New\<close>); \<open>WrapError m e\<close> is an error with message \<open>m\<close> whose
  \<open>Unwrap\<close> gives \<open>e\<close>.
\<close>

datatype drv_error =
    ServerError string
  | ErrorString string
  | WrapError string drv_error

fun errors_As_ServerError :: "drv_error \<Rightarrow> bool" where
  "errors_As_ServerError (ServerError s) = True"
| "errors_As_ServerError (ErrorString s) = False"
| "errors_As_ServerError (WrapError m e) = errors_As_ServerError e"

fun err_Error :: "drv_error \<Rightarrow> string" where
  "err_Error (ServerError s) = s"
| "err_Error (ErrorString s) = s"
| "err_Error (WrapError m e) = m"

text \<open>
  What a Host operation returns as its error: the typed errors of \<open>mcnerror\<close>, \<open>drivers\<close>
  and of the wait utility, or a driver's error handed on as it came.
\<close>

datatype error =
    ErrHostAlreadyInState string State
  | ErrNotImplemented
  | ErrTimeout
  | DriverError drv_error

type_synonym bytes = "8 word list"

text \<open>
  The driver is an interface value: an object with hidden state of some type \<open>'d\<close> and the
  methods below, each of which may change that state. \<open>GetState\<close> is a method call like
  the others, so two consecutive calls may report different states (the machine boots or
  halts while the Host polls it).
\<close>

record 'd Driver =
  Driver_Start :: "'d \<Rightarrow> drv_error option \<times> 'd"
  Driver_Stop :: "'d \<Rightarrow> drv_error option \<times> 'd"
  Driver_Kill :: "'d \<Rightarrow> drv_error option \<times> 'd"
  Driver_Restart :: "'d \<Rightarrow> drv_error option \<times> 'd"
  Driver_GetState :: "'d \<Rightarrow> State \<times> 'd"
  Driver_GetURL :: "'d \<Rightarrow> (string \<times> drv_error option) \<times> 'd"
  Driver_UpdateConfigRaw :: "bytes \<Rightarrow> 'd \<Rightarrow> drv_error option \<times> 'd"

typedecl engine_Options
typedecl swarm_Options
typedecl auth_Options

record Options =
  Options_Driver :: string
  Memory :: int
  Disk :: int
  EngineOptions :: "engine_Options option"
  SwarmOptions :: "swarm_Options option"
  AuthOptions :: "auth_Options option"

record 'd Host =
  ConfigVersion :: int
  Driver :: "'d Driver"
  DriverName :: string
  DriverPath :: string
  HostOptions :: "Options option"
  Name :: string
  RawDriver :: bytes

subsection \<open>The world a Host operation runs in\<close>

text \<open>
  Every call of a driver method is recorded, in order, in \<open>calls\<close>; every \<open>log.Infof\<close> line
  in \<open>logs\<close> (format string and argument). The driver's methods see and change
  \<open>dstate\<close> only.
\<close>

datatype call =
    CallStart | CallStop | CallKill | CallRestart | CallGetState | CallGetURL
  | CallUpdateConfigRaw bytes

datatype log_line = Infof string string

record 'd world =
  dstate :: 'd
  calls :: "call list"
  logs :: "log_line list"

definition log_Infof :: "string \<Rightarrow> string \<Rightarrow> 'd world \<Rightarrow> 'd world" where
  "log_Infof fmt arg w = w\<lparr>logs := logs w @ [Infof fmt arg]\<rparr>"

definition invoke :: "call \<Rightarrow> ('d \<Rightarrow> 'r \<times> 'd) \<Rightarrow> 'd world \<Rightarrow> 'r \<times> 'd world" where
  "invoke c m w =
     (case m (dstate w) of (r, d') \<Rightarrow> (r, w\<lparr>dstate := d', calls := calls w @ [c]\<rparr>))"

text \<open>
  Modelled from the spec: \<open>drivers.MachineInState\<close> is not part of the sources at hand.
  The spec calls it the predicate "is driver currently in state S", supplied by the
  driver contract: it asks the driver for its state and compares.
\<close>

definition MachineInState :: "'d Driver \<Rightarrow> State \<Rightarrow> 'd world \<Rightarrow> bool \<times> 'd world" where
  "MachineInState d desiredState w =
     (case invoke CallGetState (Driver_GetState d) w of
        (currentState, w') \<Rightarrow> (currentState = desiredState, w'))"

text \<open>
  Modelled from the spec: \<open>mcnutils.WaitFor\<close> is not part of the sources at hand. The spec:
  evaluate the predicate repeatedly with a bounded number of attempts, return success the
  first time it is true, fail with a Timeout error when the budget is exhausted. The
  budget is a constant of the missing package and is a parameter here.
\<close>

fun WaitFor :: "nat \<Rightarrow> ('d world \<Rightarrow> bool \<times> 'd world) \<Rightarrow> 'd world \<Rightarrow> error option \<times> 'd world" where
  "WaitFor 0 f w = (Some ErrTimeout, w)"
| "WaitFor (Suc n) f w =
     (case f w of (ok, w') \<Rightarrow> if ok then (None, w') else WaitFor n f w')"

subsection \<open>The operations of host.go\<close>

text \<open>
  Every method has the receiver \<open>h *Host\<close>, so each returns the Host as it leaves it,
  beside the error and the world.
\<close>

definition runActionForState ::
  "nat \<Rightarrow> 'd Host \<Rightarrow> ('d world \<Rightarrow> drv_error option \<times> 'd world) \<Rightarrow> State \<Rightarrow> 'd world
     \<Rightarrow> error option \<times> 'd Host \<times> 'd world" where
  "runActionForState maxAttempts h action desiredState w =
     (case MachineInState (Driver h) desiredState w of
        (inState, w1) \<Rightarrow>
          if inState then (Some (ErrHostAlreadyInState (Name h) desiredState), h, w1)
          else
            (case action w1 of
               (Some err, w2) \<Rightarrow> (Some (DriverError err), h, w2)
             | (None, w2) \<Rightarrow>
                 (case WaitFor maxAttempts (MachineInState (Driver h) desiredState) w2 of
                    (r, w3) \<Rightarrow> (r, h, w3))))"

definition Start :: "nat \<Rightarrow> 'd Host \<Rightarrow> 'd world \<Rightarrow> error option \<times> 'd Host \<times> 'd world" where
  "Start maxAttempts h w =
     (case runActionForState maxAttempts h (invoke CallStart (Driver_Start (Driver h))) Running
             (log_Infof ''Starting %q...'' (Name h) w) of
        (Some err, h', w') \<Rightarrow> (Some err, h', w')
      | (None, h', w') \<Rightarrow> (None, h', log_Infof ''Machine %q was started.'' (Name h') w'))"

definition Stop :: "nat \<Rightarrow> 'd Host \<Rightarrow> 'd world \<Rightarrow> error option \<times> 'd Host \<times> 'd world" where
  "Stop maxAttempts h w =
     (case runActionForState maxAttempts h (invoke CallStop (Driver_Stop (Driver h))) Stopped
             (log_Infof ''Stopping %q...'' (Name h) w) of
        (Some err, h', w') \<Rightarrow> (Some err, h', w')
      | (None, h', w') \<Rightarrow> (None, h', log_Infof ''Machine %q was stopped.'' (Name h') w'))"

definition Kill :: "nat \<Rightarrow> 'd Host \<Rightarrow> 'd world \<Rightarrow> error option \<times> 'd Host \<times> 'd world" where
  "Kill maxAttempts h w =
     (case runActionForState maxAttempts h (invoke CallKill (Driver_Kill (Driver h))) Stopped
             (log_Infof ''Killing %q...'' (Name h) w) of
        (Some err, h', w') \<Rightarrow> (Some err, h', w')
      | (None, h', w') \<Rightarrow> (None, h', log_Infof ''Machine %q was killed.'' (Name h') w'))"

definition Restart :: "nat \<Rightarrow> 'd Host \<Rightarrow> 'd world \<Rightarrow> error option \<times> 'd Host \<times> 'd world" where
  "Restart maxAttempts h w =
     (case MachineInState (Driver h) Stopped (log_Infof ''Restarting %q...'' (Name h) w) of
        (stopped, w1) \<Rightarrow>
          if stopped then
            (case Start maxAttempts h w1 of
               (Some err, h', w') \<Rightarrow> (Some err, h', w')
             | (None, h', w') \<Rightarrow> (None, h', w'))
          else
            (case MachineInState (Driver h) Running w1 of
               (running, w2) \<Rightarrow>
                 if running then
                   (case invoke CallRestart (Driver_Restart (Driver h)) w2 of
                      (Some err, w3) \<Rightarrow> (Some (DriverError err), h, w3)
                    | (None, w3) \<Rightarrow>
                        (case WaitFor maxAttempts (MachineInState (Driver h) Running) w3 of
                           (Some err, w4) \<Rightarrow> (Some err, h, w4)
                         | (None, w4) \<Rightarrow> (None, h, w4)))
                 else (None, h, w2)))"

definition UpdateConfig :: "'d Host \<Rightarrow> bytes \<Rightarrow> 'd world \<Rightarrow> error option \<times> 'd Host \<times> 'd world" where
  "UpdateConfig h rawConfig w =
     (case invoke (CallUpdateConfigRaw rawConfig) (Driver_UpdateConfigRaw (Driver h) rawConfig) w of
        (Some err, w') \<Rightarrow>
          (if errors_As_ServerError err \<and> err_Error err = ''Not Implemented''
           then (Some ErrNotImplemented, h, w')
           else (Some (DriverError err), h, w'))
      | (None, w') \<Rightarrow> (None, h\<lparr>RawDriver := rawConfig\<rparr>, w'))"

definition URL :: "'d Host \<Rightarrow> 'd world \<Rightarrow> (string \<times> error option) \<times> 'd Host \<times> 'd world" where
  "URL h w =
     (case invoke CallGetURL (Driver_GetURL (Driver h)) w of
        ((s, err), w') \<Rightarrow> ((s, map_option DriverError err), h, w'))"

subsection \<open>Reading a run of the driver\<close>

text \<open>
  \<open>driver_after d k x\<close> is the driver's state after \<open>k\<close> consecutive calls of \<open>GetState\<close>
  from the state \<open>x\<close>, and \<open>reported d k x\<close> is the state that the next call, number
  \<open>k + 1\<close>, reports.
\<close>

definition driver_after :: "'d Driver \<Rightarrow> nat \<Rightarrow> 'd \<Rightarrow> 'd" where
  "driver_after d k x = ((\<lambda>y. snd (Driver_GetState d y)) ^^ k) x"

definition reported :: "'d Driver \<Rightarrow> nat \<Rightarrow> 'd \<Rightarrow> State" where
  "reported d k x = fst (Driver_GetState d (driver_after d k x))"

text \<open>The world after \<open>k\<close> further calls of \<open>GetState\<close> and nothing else.\<close>

definition polled :: "'d Driver \<Rightarrow> nat \<Rightarrow> 'd world \<Rightarrow> 'd world" where
  "polled d k w =
     w\<lparr>dstate := driver_after d k (dstate w), calls := calls w @ replicate k CallGetState\<rparr>"

text \<open>
  \<open>waited d s n x cs r w'\<close>: a wait for the state \<open>s\<close> with a budget of \<open>n\<close> attempts, begun
  with the driver in state \<open>x\<close> and the record of calls \<open>cs\<close>, has ended with the result
  \<open>r\<close> in the world \<open>w'\<close>. Either it succeeded at the first call of \<open>GetState\<close> that
  reported \<open>s\<close>, which was one of the first \<open>n\<close>, or it failed with the timeout after
  \<open>n\<close> calls none of which reported \<open>s\<close>; it called nothing but \<open>GetState\<close>.
\<close>

definition waited :: "'d Driver \<Rightarrow> State \<Rightarrow> nat \<Rightarrow> 'd \<Rightarrow> call list \<Rightarrow> error option \<Rightarrow> 'd world \<Rightarrow> bool" where
  "waited d s n x cs r w' =
     ((r = None \<and>
       (\<exists>k<n. reported d k x = s \<and> (\<forall>j<k. reported d j x \<noteq> s) \<and>
          calls w' = cs @ replicate (Suc k) CallGetState \<and> dstate w' = driver_after d (Suc k) x)) \<or>
      (r = Some ErrTimeout \<and> (\<forall>j<n. reported d j x \<noteq> s) \<and>
       calls w' = cs @ replicate n CallGetState \<and> dstate w' = driver_after d n x))"

text \<open>
  The operations with a single target state: the operation, the driver method it calls,
  the entry of that method in the record of calls, and the target state.
\<close>

definition lifecycle_ops ::
  "((nat \<Rightarrow> 'd Host \<Rightarrow> 'd world \<Rightarrow> error option \<times> 'd Host \<times> 'd world) \<times>
    ('d Driver \<Rightarrow> 'd \<Rightarrow> drv_error option \<times> 'd) \<times> call \<times> State) list" where
  "lifecycle_ops =
     [(Start, Driver_Start, CallStart, Running),
      (Stop, Driver_Stop, CallStop, Stopped),
      (Kill, Driver_Kill, CallKill, Stopped)]"

subsection \<open>A scripted driver, for running the operations on concrete inputs\<close>

text \<open>
  The driver's hidden state is the list of states its next \<open>GetState\<close> calls report, the
  last one for ever; every other method returns the given result and leaves the script
  alone.
\<close>

fun scripted_GetState :: "State list \<Rightarrow> State \<times> State list" where
  "scripted_GetState [] = (Error, [])"
| "scripted_GetState [s] = (s, [s])"
| "scripted_GetState (s # t # ss) = (s, t # ss)"

definition scripted_GetURL :: "State list \<Rightarrow> (string \<times> drv_error option) \<times> State list" where
  "scripted_GetURL d = ((''tcp://192.168.130.11:2376'', None), d)"

definition scripted_UpdateConfigRaw :: "drv_error option \<Rightarrow> bytes \<Rightarrow> State list \<Rightarrow> drv_error option \<times> State list" where
  "scripted_UpdateConfigRaw r rawConfig d = (r, d)"

definition scripted_driver :: "drv_error option \<Rightarrow> State list Driver" where
  "scripted_driver r =
     \<lparr>Driver_Start = Pair r, Driver_Stop = Pair r, Driver_Kill = Pair r, Driver_Restart = Pair r,
      Driver_GetState = scripted_GetState, Driver_GetURL = scripted_GetURL,
      Driver_UpdateConfigRaw = scripted_UpdateConfigRaw r\<rparr>"

definition demo_host :: "drv_error option \<Rightarrow> State list Host" where
  "demo_host r =
     \<lparr>ConfigVersion = 3, Driver = scripted_driver r, DriverName = ''libvirt'', DriverPath = [],
      HostOptions = None, Name = ''crc'', RawDriver = [1, 2]\<rparr>"

definition demo_world :: "State list \<Rightarrow> State list world" where
  "demo_world script = \<lparr>dstate = script, calls = [], logs = []\<rparr>"

subsection \<open>ValidateHostName and its pattern\<close>

text \<open>
  The pattern of \<open>validHostNamePattern\<close> is built from character classes, concatenation
  and star, between the anchors \<open>^\<close> and \<open>$\<close>. A class is a list of inclusive ranges. Go
  matches runes of the UTF-8 text; the classes here hold ASCII characters only and every
  byte of a longer rune is above 127, so matching byte by byte gives the same answer.
  Without the multi-line flag, \<open>$\<close> is the end of the text.
\<close>

datatype regex =
    Zero
  | One
  | Class "(char \<times> char) list"
  | Plus regex regex
  | Times regex regex
  | Star regex

definition in_range :: "char \<Rightarrow> char \<times> char \<Rightarrow> bool" where
  "in_range c r = ((of_char (fst r) :: nat) \<le> of_char c \<and> (of_char c :: nat) \<le> of_char (snd r))"

definition in_class :: "char \<Rightarrow> (char \<times> char) list \<Rightarrow> bool" where
  "in_class c rs = list_ex (in_range c) rs"

fun nullable :: "regex \<Rightarrow> bool" where
  "nullable Zero = False"
| "nullable One = True"
| "nullable (Class rs) = False"
| "nullable (Plus r s) = (nullable r \<or> nullable s)"
| "nullable (Times r s) = (nullable r \<and> nullable s)"
| "nullable (Star r) = True"

fun deriv :: "char \<Rightarrow> regex \<Rightarrow> regex" where
  "deriv c Zero = Zero"
| "deriv c One = Zero"
| "deriv c (Class rs) = (if in_class c rs then One else Zero)"
| "deriv c (Plus r s) = Plus (deriv c r) (deriv c s)"
| "deriv c (Times r s) =
     (if nullable r then Plus (Times (deriv c r) s) (deriv c s) else Times (deriv c r) s)"
| "deriv c (Star r) = Times (deriv c r) (Star r)"

fun matches :: "regex \<Rightarrow> string \<Rightarrow> bool" where
  "matches r [] = nullable r"
| "matches r (c # cs) = matches (deriv c r) cs"

text \<open>
  What the matcher is to compute: the set of texts a regular expression denotes.
\<close>

inductive_set lang_star :: "string set \<Rightarrow> string set" for L :: "string set" where
  empty: "[] \<in> lang_star L"
| append: "u \<in> L \<Longrightarrow> v \<in> lang_star L \<Longrightarrow> u @ v \<in> lang_star L"

fun lang :: "regex \<Rightarrow> string set" where
  "lang Zero = {}"
| "lang One = {[]}"
| "lang (Class rs) = {[c] | c. in_class c rs}"
| "lang (Plus r s) = lang r \<union> lang s"
| "lang (Times r s) = {u @ v | u v. u \<in> lang r \<and> v \<in> lang s}"
| "lang (Star r) = lang_star (lang r)"

text \<open>
  A compiled pattern: whether it starts with \<open>^\<close>, its body, whether it ends with \<open>$\<close>.
  \<open>MatchString\<close> reports whether the text contains any match: some stretch of the text,
  from position \<open>i\<close> to position \<open>j\<close>, matches the body, where \<open>^\<close> forces \<open>i\<close> to the
  beginning of the text and \<open>$\<close> forces \<open>j\<close> to its end.
\<close>

record Regexp =
  anchor_begin :: bool
  body :: regex
  anchor_end :: bool

definition MatchString :: "Regexp \<Rightarrow> string \<Rightarrow> bool" where
  "MatchString p s =
     list_ex (\<lambda>i. list_ex (\<lambda>j.
         (anchor_begin p \<longrightarrow> i = 0) \<and> (anchor_end p \<longrightarrow> j = length s) \<and>
         matches (body p) (take (j - i) (drop i s)))
       [i..<Suc (length s)]) [0..<Suc (length s)]"

text \<open>The source's pattern: \<^verbatim>\<open>^[a-zA-Z0-9][a-zA-Z0-9\-\.]*$\<close>.\<close>

definition validHostNamePattern :: Regexp where
  "validHostNamePattern =
     \<lparr>anchor_begin = True,
      body = Times (Class [(CHR ''a'', CHR ''z''), (CHR ''A'', CHR ''Z''), (CHR ''0'', CHR ''9'')])
        (Star (Class [(CHR ''a'', CHR ''z''), (CHR ''A'', CHR ''Z''), (CHR ''0'', CHR ''9''),
                      (CHR ''-'', CHR ''-''), (CHR ''.'', CHR ''.'')])),
      anchor_end = True\<rparr>"

definition ValidateHostName :: "string \<Rightarrow> bool" where
  "ValidateHostName name = MatchString validHostNamePattern name"

text \<open>The pattern as the spec writes it: \<^verbatim>\<open>^[A-Za-z0-9][A-Za-z0-9.-]*$\<close>.\<close>

definition spec_hostname_pattern :: Regexp where
  "spec_hostname_pattern =
     \<lparr>anchor_begin = True,
      body = Times (Class [(CHR ''A'', CHR ''Z''), (CHR ''a'', CHR ''z''), (CHR ''0'', CHR ''9'')])
        (Star (Class [(CHR ''A'', CHR ''Z''), (CHR ''a'', CHR ''z''), (CHR ''0'', CHR ''9''),
                      (CHR ''.'', CHR ''.''), (CHR ''-'', CHR ''-'')])),
      anchor_end = True\<rparr>"

text \<open>The grammar of the spec in words: a letter or digit, then letters, digits, dots and dashes.\<close>

definition alnum :: "char \<Rightarrow> bool" where
  "alnum c = ((CHR ''a'' \<le> c \<and> c \<le> CHR ''z'') \<or> (CHR ''A'' \<le> c \<and> c \<le> CHR ''Z'') \<or>
              (CHR ''0'' \<le> c \<and> c \<le> CHR ''9''))"

section \<open>pkg/crc/preflight: the checks for Linux\<close>

subsection \<open>Checks and the tables of checks\<close>

text \<open>
  Modelled from the spec: the struct \<open>Check\<close> and its flags are declared in a file that is
  not part of the sources at hand; the fields are those the tables of
  \<open>preflight_linux.go\<close> set, and a field a table leaves out has Go's zero value. A
  function-valued field holds the name of the Go function (\<open>None\<close> for \<open>nil\<close>);
  the field \<open>fix\<close> is written \<open>fix'\<close>. The
  spec describes the flags as a bit mask with the values "setup-only" and "cleanup-only";
  the mask is the set of the flags that are on.
\<close>

datatype Flag = SetupOnly | CleanUpOnly

record Check =
  configKeySuffix :: string
  checkDescription :: string
  check :: "string option"
  fixDescription :: string
  fix' :: "string option"
  cleanupDescription :: string
  cleanup :: "string option"
  flags :: "Flag set"

definition libvirtPreflightChecks :: "Check list" where
  "libvirtPreflightChecks =
     [\<lparr>configKeySuffix = ''check-virt-enabled'',
       checkDescription = ''Checking if Virtualization is enabled'',
       check = Some ''checkVirtualizationEnabled'',
       fixDescription = ''Setting up virtualization'',
       fix' = Some ''fixVirtualizationEnabled'',
       cleanupDescription = [],
       cleanup = None,
       flags = {}\<rparr>,
      \<lparr>configKeySuffix = ''check-kvm-enabled'',
       checkDescription = ''Checking if KVM is enabled'',
       check = Some ''checkKvmEnabled'',
       fixDescription = ''Setting up KVM'',
       fix' = Some ''fixKvmEnabled'',
       cleanupDescription = [],
       cleanup = None,
       flags = {}\<rparr>,
      \<lparr>configKeySuffix = ''check-libvirt-installed'',
       checkDescription = ''Checking if libvirt is installed'',
       check = Some ''checkLibvirtInstalled'',
       fixDescription = ''Installing libvirt service and dependencies'',
       fix' = Some ''fixLibvirtInstalled'',
       cleanupDescription = [],
       cleanup = None,
       flags = {}\<rparr>,
      \<lparr>configKeySuffix = ''check-user-in-libvirt-group'',
       checkDescription = ''Checking if user is part of libvirt group'',
       check = Some ''checkUserPartOfLibvirtGroup'',
       fixDescription = ''Adding user to libvirt group'',
       fix' = Some ''fixUserPartOfLibvirtGroup'',
       cleanupDescription = [],
       cleanup = None,
       flags = {}\<rparr>,
      \<lparr>configKeySuffix = ''check-libvirt-running'',
       checkDescription = ''Checking if libvirt daemon is running'',
       check = Some ''checkLibvirtServiceRunning'',
       fixDescription = ''Starting libvirt service'',
       fix' = Some ''fixLibvirtServiceRunning'',
       cleanupDescription = [],
       cleanup = None,
       flags = {}\<rparr>,
      \<lparr>configKeySuffix = ''check-libvirt-version'',
       checkDescription = ''Checking if a supported libvirt version is installed'',
       check = Some ''checkLibvirtVersion'',
       fixDescription = ''Installing a supported libvirt version'',
       fix' = Some ''fixLibvirtVersion'',
       cleanupDescription = [],
       cleanup = None,
       flags = {}\<rparr>,
      \<lparr>configKeySuffix = ''check-libvirt-driver'',
       checkDescription = ''Checking if crc-driver-libvirt is installed'',
       check = Some ''checkMachineDriverLibvirtInstalled'',
       fixDescription = ''Installing crc-driver-libvirt'',
       fix' = Some ''fixMachineDriverLibvirtInstalled'',
       cleanupDescription = [],
       cleanup = None,
       flags = {}\<rparr>,
      \<lparr>configKeySuffix = ''check-obsolete-libvirt-driver'',
       checkDescription = ''Checking for obsolete crc-driver-libvirt'',
       check = Some ''checkOldMachineDriverLibvirtInstalled'',
       fixDescription = ''Removing older system-wide crc-driver-libvirt'',
       fix' = Some ''fixOldMachineDriverLibvirtInstalled'',
       cleanupDescription = [],
       cleanup = None,
       flags = {SetupOnly}\<rparr>,
      \<lparr>configKeySuffix = ''check-crc-network'',
       checkDescription = ''Checking if libvirt 'crc' network is available'',
       check = Some ''checkLibvirtCrcNetworkAvailable'',
       fixDescription = ''Setting up libvirt 'crc' network'',
       fix' = Some ''fixLibvirtCrcNetworkAvailable'',
       cleanupDescription = ''Removing 'crc' network from libvirt'',
       cleanup = Some ''removeLibvirtCrcNetwork'',
       flags = {}\<rparr>,
      \<lparr>configKeySuffix = ''check-crc-network-active'',
       checkDescription = ''Checking if libvirt 'crc' network is active'',
       check = Some ''checkLibvirtCrcNetworkActive'',
       fixDescription = ''Starting libvirt 'crc' network'',
       fix' = Some ''fixLibvirtCrcNetworkActive'',
       cleanupDescription = [],
       cleanup = None,
       flags = {}\<rparr>,
      \<lparr>configKeySuffix = [],
       checkDescription = [],
       check = None,
       fixDescription = [],
       fix' = None,
       cleanupDescription = ''Removing the crc VM if exists'',
       cleanup = Some ''removeCrcVM'',
       flags = {CleanUpOnly}\<rparr>]"

definition vsockPreflightChecks :: Check where
  "vsockPreflightChecks =
      \<lparr>configKeySuffix = ''check-vsock'',
       checkDescription = ''Checking if vsock is correctly configured'',
       check = Some ''checkVsock'',
       fixDescription = ''Checking if vsock is correctly configured'',
       fix' = Some ''fixVsock'',
       cleanupDescription = [],
       cleanup = None,
       flags = {}\<rparr>"

text \<open>
  The tables \<open>genericPreflightChecks\<close>, \<open>nonWinPreflightChecks\<close> and
  \<open>redhatPreflightChecks\<close> are declared in files that are not part of the sources at
  hand: they are parameters.
\<close>

record tables =
  genericPreflightChecks :: "Check list"
  nonWinPreflightChecks :: "Check list"
  redhatPreflightChecks :: "Check list"

text \<open>
  Modelled from the spec: \<open>linux.OsType\<close> and \<open>network.Mode\<close> are string types declared in
  packages that are not part of the sources at hand, each with named constants. The
  constants are the constructors; \<open>OtherOs s\<close> and \<open>OtherMode s\<close> stand for a string
  \<open>s\<close> that is none of the constants.
\<close>

datatype OsType = Ubuntu | RHEL | CentOS | Fedora | OtherOs string

datatype Mode = DefaultMode | VSockMode | OtherMode string

text \<open>The lines \<open>logging.Warnf\<close> writes: the format string and its argument.\<close>

datatype warn_arg = ArgOsType OsType | ArgError string

datatype warning = Warnf string warn_arg

subsection \<open>Building the list of checks\<close>

definition commonChecks :: "tables \<Rightarrow> Check list" where
  "commonChecks t =
     (let checks = [];
          checks = checks @ genericPreflightChecks t;
          checks = checks @ nonWinPreflightChecks t;
          checks = checks @ libvirtPreflightChecks
      in checks)"

definition getPreflightChecksForDistro :: "tables \<Rightarrow> OsType \<Rightarrow> Mode \<Rightarrow> Check list \<times> warning list" where
  "getPreflightChecksForDistro t distro networkMode =
     (let checks = commonChecks t;
          checks = (if networkMode = VSockMode then checks @ [vsockPreflightChecks] else checks)
      in case distro of
           Ubuntu \<Rightarrow> (checks, [])
         | RHEL \<Rightarrow>
             (if networkMode = DefaultMode then checks @ redhatPreflightChecks t else checks, [])
         | CentOS \<Rightarrow>
             (if networkMode = DefaultMode then checks @ redhatPreflightChecks t else checks, [])
         | Fedora \<Rightarrow>
             (if networkMode = DefaultMode then checks @ redhatPreflightChecks t else checks, [])
         | OtherOs s \<Rightarrow>
             (if networkMode = DefaultMode then checks @ redhatPreflightChecks t else checks,
              [Warnf ''distribution-specific preflight checks are not implemented for %s''
                 (ArgOsType distro)]))"

text \<open>
  \<open>distro()\<close> reads the release file of the operating system through
  \<open>linux.GetOsRelease\<close>, whose result (an error message, or the \<open>ID\<close> of the release) is
  the argument here.
\<close>

definition distro :: "string + OsType \<Rightarrow> OsType \<times> warning list" where
  "distro osRelease =
     (case osRelease of
        Inl err \<Rightarrow> (OtherOs ''unknown'', [Warnf ''cannot get distribution name: %v'' (ArgError err)])
      | Inr ident \<Rightarrow> (ident, []))"

definition getAllPreflightChecks :: "tables \<Rightarrow> string + OsType \<Rightarrow> Check list \<times> warning list" where
  "getAllPreflightChecks t osRelease =
     (case distro osRelease of
        (d, ws) \<Rightarrow>
          (case getPreflightChecksForDistro t d DefaultMode of
             (checks, ws') \<Rightarrow> (checks @ [vsockPreflightChecks], ws @ ws')))"

definition getPreflightChecks :: "tables \<Rightarrow> string + OsType \<Rightarrow> bool \<Rightarrow> Mode \<Rightarrow> Check list \<times> warning list" where
  "getPreflightChecks t osRelease b networkMode =
     (case distro osRelease of
        (d, ws) \<Rightarrow>
          (case getPreflightChecksForDistro t d networkMode of
             (checks, ws') \<Rightarrow> (checks, ws @ ws')))"

subsection \<open>The vsock check\<close>

text \<open>
  What \<open>checkVsock\<close> asks of the operating system: the path of the running executable,
  the result of running a command (standard output, standard error, error), the result of
  \<open>os.Stat\<close> and the lookup of a group by its id. An error is its message. Of a
  \<open>FileInfo\<close> the check reads \<open>Sys()\<close>, which is a \<open>*syscall.Stat_t\<close> or not, with the
  group id, and the mode bits.
\<close>

record FileInfo =
  Sys_Gid :: "32 word option"
  FileMode :: "32 word"

record os_env =
  os_Executable :: "string + string"
  RunWithDefaultLocale :: "string \<Rightarrow> string list \<Rightarrow> string \<times> string \<times> string option"
  os_Stat :: "string \<Rightarrow> string + FileInfo"
  user_LookupGroupId :: "string \<Rightarrow> string + string"

fun strings_Contains :: "string \<Rightarrow> string \<Rightarrow> bool" where
  "strings_Contains [] substr = (substr = [])"
| "strings_Contains (c # cs) substr =
     (take (length substr) (c # cs) = substr \<or> strings_Contains cs substr)"

fun fmt_Sprint :: "nat \<Rightarrow> string" where
  "fmt_Sprint n =
     (if n < 10 then [char_of (48 + n)] else fmt_Sprint (n div 10) @ [char_of (48 + n mod 10)])"

declare fmt_Sprint.simps [simp del]

definition checkVsock :: "os_env \<Rightarrow> string option" where
  "checkVsock env =
     (case os_Executable env of
        Inl err \<Rightarrow> Some err
      | Inr executable \<Rightarrow>
          (case RunWithDefaultLocale env ''getcap'' [executable] of
             (getcap, _, Some err) \<Rightarrow> Some err
           | (getcap, _, None) \<Rightarrow>
               if \<not> strings_Contains getcap ''cap_net_bind_service+eip''
               then Some (''capabilities are not correct for '' @ executable)
               else
                 (case os_Stat env ''/dev/vsock'' of
                    Inl err \<Rightarrow> Some err
                  | Inr info \<Rightarrow>
                      (case Sys_Gid info of
                         None \<Rightarrow> Some ''cannot cast info''
                       | Some gid \<Rightarrow>
                           (case user_LookupGroupId env (fmt_Sprint (unat gid)) of
                              Inl err \<Rightarrow> Some err
                            | Inr groupName \<Rightarrow>
                                if groupName \<noteq> ''libvirt''
                                then Some ''/dev/vsock is not is the right group''
                                else if FileMode info AND 48 = 0
                                then Some ''/dev/vsock doesn't have the right permissions''
                                else None)))))"

text \<open>
  The claim's reading of "the right permissions": the group may both read (octal 0040)
  and write (octal 0020).
\<close>

definition group_read_write :: "32 word \<Rightarrow> bool" where
  "group_read_write m = (m AND 48 = 48)"

subsection \<open>Concrete inputs for the preflight functions\<close>

definition demo_check :: "string \<Rightarrow> Check" where
  "demo_check k =
     \<lparr>configKeySuffix = k, checkDescription = [], check = Some ''checkFn'', fixDescription = [],
      fix' = None, cleanupDescription = [], cleanup = None, flags = {}\<rparr>"

definition demo_tables :: tables where
  "demo_tables =
     \<lparr>genericPreflightChecks = [demo_check ''check-bundle-extracted'', demo_check ''check-ram''],
      nonWinPreflightChecks = [demo_check ''check-root-user''],
      redhatPreflightChecks = [demo_check ''check-network-manager-installed'']\<rparr>"

definition demo_run :: "string \<Rightarrow> string list \<Rightarrow> string \<times> string \<times> string option" where
  "demo_run cmd args = (''/usr/local/bin/crc = cap_net_bind_service+eip'', [], None)"

definition demo_stat :: "32 word \<Rightarrow> string \<Rightarrow> string + FileInfo" where
  "demo_stat m path = Inr \<lparr>Sys_Gid = Some 107, FileMode = m\<rparr>"

definition demo_group :: "string \<Rightarrow> string + string" where
  "demo_group gid = (if gid = ''107'' then Inr ''libvirt'' else Inl ''group: unknown groupid'')"

definition demo_env :: "32 word \<Rightarrow> os_env" where
  "demo_env m =
     \<lparr>os_Executable = Inr ''/usr/local/bin/crc'', RunWithDefaultLocale = demo_run,
      os_Stat = demo_stat m, user_LookupGroupId = demo_group\<rparr>"

section \<open>Properties of the Host operations\<close>

subsection \<open>Polling the driver\<close>

lemma driver_after_0: "driver_after d 0 x = x"
  by (simp add: driver_after_def)

lemma driver_after_Suc: "driver_after d (Suc k) x = driver_after d k (snd (Driver_GetState d x))"
  by (simp add: driver_after_def funpow_Suc_right del: funpow.simps)

lemma reported_0: "reported d 0 x = fst (Driver_GetState d x)"
  by (simp add: reported_def driver_after_0)

lemma reported_Suc: "reported d (Suc k) x = reported d k (snd (Driver_GetState d x))"
  by (simp add: reported_def driver_after_Suc)

lemma MachineInState_eq:
  "MachineInState d s w = (reported d 0 (dstate w) = s, polled d (Suc 0) w)"
  by (simp add: MachineInState_def invoke_def reported_0 driver_after_Suc driver_after_0
      polled_def split: prod.splits)

lemma polled_0: "polled d 0 w = w"
  by (simp add: polled_def driver_after_0)

lemma polled_polled: "polled d k (polled d (Suc 0) w) = polled d (Suc k) w"
  by (simp add: polled_def driver_after_Suc driver_after_0 replicate_append_same)

lemma dstate_polled_1: "dstate (polled d (Suc 0) w) = snd (Driver_GetState d (dstate w))"
  by (simp add: polled_def driver_after_Suc driver_after_0)

text \<open>
  The wait on "the driver is in state \<open>s\<close>" either succeeds at the first call of
  \<open>GetState\<close> that reports \<open>s\<close>, which is one of the first \<open>n\<close>, or fails with the timeout
  after exactly \<open>n\<close> calls none of which reported \<open>s\<close>.
\<close>

lemma WaitFor_MachineInState:
  "WaitFor n (MachineInState d s) w = (r, w') \<Longrightarrow>
     (r = None \<and> (\<exists>k<n. reported d k (dstate w) = s \<and> (\<forall>j<k. reported d j (dstate w) \<noteq> s) \<and>
          w' = polled d (Suc k) w)) \<or>
     (r = Some ErrTimeout \<and> (\<forall>j<n. reported d j (dstate w) \<noteq> s) \<and> w' = polled d n w)"
proof (induction n arbitrary: w)
  case 0
  then show ?case by (simp add: polled_0)
next
  case (Suc n)
  let ?w1 = "polled d (Suc 0) w"
  show ?case
  proof (cases "reported d 0 (dstate w) = s")
    case True
    then have "MachineInState d s w = (True, ?w1)"
      by (simp add: MachineInState_eq)
    with Suc.prems have "r = None" "w' = ?w1"
      by simp_all
    with True show ?thesis
      by (auto intro!: exI[of _ 0])
  next
    case False
    then have "MachineInState d s w = (False, ?w1)"
      by (simp add: MachineInState_eq)
    with Suc.prems have run: "WaitFor n (MachineInState d s) ?w1 = (r, w')"
      by simp
    have later: "reported d j (dstate ?w1) = reported d (Suc j) (dstate w)" for j
      by (simp add: dstate_polled_1 reported_Suc)
    have first: "\<forall>j<Suc m. reported d j (dstate w) \<noteq> s"
      if "\<forall>j<m. reported d (Suc j) (dstate w) \<noteq> s" for m
    proof (intro allI impI)
      fix j assume "j < Suc m"
      with that False show "reported d j (dstate w) \<noteq> s"
        by (cases j) auto
    qed
    from Suc.IH[OF run] show ?thesis
    proof
      assume "r = None \<and> (\<exists>k<n. reported d k (dstate ?w1) = s \<and>
          (\<forall>j<k. reported d j (dstate ?w1) \<noteq> s) \<and> w' = polled d (Suc k) ?w1)"
      then obtain k where k: "r = None" "k < n" "reported d (Suc k) (dstate w) = s"
        "\<forall>j<k. reported d (Suc j) (dstate w) \<noteq> s" "w' = polled d (Suc (Suc k)) w"
        unfolding later polled_polled by blast
      from first[OF k(4)] k show ?thesis
        by (intro disjI1) (auto intro!: exI[of _ "Suc k"])
    next
      assume "r = Some ErrTimeout \<and> (\<forall>j<n. reported d j (dstate ?w1) \<noteq> s) \<and> w' = polled d n ?w1"
      then have t: "r = Some ErrTimeout" "\<forall>j<n. reported d (Suc j) (dstate w) \<noteq> s"
        "w' = polled d (Suc n) w"
        unfolding later polled_polled by blast+
      from first[OF t(2)] t show ?thesis
        by (intro disjI2) auto
    qed
  qed
qed

lemma runActionForState_host: "fst (snd (runActionForState n h a s w)) = h"
  by (simp add: runActionForState_def split: prod.splits option.splits)

lemma Start_host: "fst (snd (Start n h w)) = h"
proof -
  obtain r h' w' where
    run: "runActionForState n h (invoke CallStart (Driver_Start (Driver h))) Running
            (log_Infof ''Starting %q...'' (Name h) w) = (r, h', w')"
    by (metis prod_cases3)
  with runActionForState_host[of n h _ Running] have "h' = h"
    by (metis fst_conv snd_conv)
  with run show ?thesis
    by (simp add: Start_def split: option.splits)
qed

lemma Stop_host: "fst (snd (Stop n h w)) = h"
proof -
  obtain r h' w' where
    run: "runActionForState n h (invoke CallStop (Driver_Stop (Driver h))) Stopped
            (log_Infof ''Stopping %q...'' (Name h) w) = (r, h', w')"
    by (metis prod_cases3)
  with runActionForState_host[of n h _ Stopped] have "h' = h"
    by (metis fst_conv snd_conv)
  with run show ?thesis
    by (simp add: Stop_def split: option.splits)
qed

lemma Kill_host: "fst (snd (Kill n h w)) = h"
proof -
  obtain r h' w' where
    run: "runActionForState n h (invoke CallKill (Driver_Kill (Driver h))) Stopped
            (log_Infof ''Killing %q...'' (Name h) w) = (r, h', w')"
    by (metis prod_cases3)
  with runActionForState_host[of n h _ Stopped] have "h' = h"
    by (metis fst_conv snd_conv)
  with run show ?thesis
    by (simp add: Kill_def split: option.splits)
qed

lemma Restart_host: "fst (snd (Restart n h w)) = h"
proof -
  have "fst (snd (case Start n h w1 of (Some err, h', w') \<Rightarrow> (Some err, h', w')
                   | (None, h', w') \<Rightarrow> (None, h', w'))) = h" for w1
    using Start_host[of n h w1] by (cases "Start n h w1") (auto split: option.splits)
  then show ?thesis
    by (simp add: Restart_def split: prod.splits option.splits)
qed

lemma URL_host: "fst (snd (URL h w)) = h"
  by (simp add: URL_def split: prod.splits)

subsection \<open>The stored raw configuration\<close>

text \<open>
  Claim C5. \<open>UpdateConfig\<close> is atomic for the stored raw configuration: when the driver's
  \<open>UpdateConfigRaw\<close> accepts \<open>rawConfig\<close> (returns no error), the operation succeeds and the
  Host is the old one with \<open>RawDriver\<close> equal to \<open>rawConfig\<close>; when the driver returns an
  error, the operation fails and the Host, \<open>RawDriver\<close> included, is as before.
\<close>

theorem UpdateConfig_atomic:
  assumes "UpdateConfig h rawConfig w = (r, h', w')"
  shows "(fst (Driver_UpdateConfigRaw (Driver h) rawConfig (dstate w)) = None
            \<longrightarrow> r = None \<and> h' = h\<lparr>RawDriver := rawConfig\<rparr> \<and> RawDriver h' = rawConfig) \<and>
         (fst (Driver_UpdateConfigRaw (Driver h) rawConfig (dstate w)) \<noteq> None
            \<longrightarrow> r \<noteq> None \<and> h' = h \<and> RawDriver h' = RawDriver h)"
  using assms
  by (auto simp: UpdateConfig_def invoke_def split: prod.splits option.splits if_splits)

theorem UpdateConfig_atomic_witness:
  "RawDriver (demo_host None) = [1, 2] \<and>
   RawDriver (fst (snd (UpdateConfig (demo_host None) [7, 8] (demo_world [Running])))) = [7, 8] \<and>
   RawDriver (fst (snd (UpdateConfig (demo_host (Some (ErrorString ''no space left on device'')))
     [7, 8] (demo_world [Running])))) = [1, 2]"
proof -
  let ?e = "Some (ErrorString ''no space left on device'')"
  obtain r h' w' where ok: "UpdateConfig (demo_host None) [7, 8] (demo_world [Running]) = (r, h', w')"
    by (metis prod_cases3)
  obtain r2 h2 w2 where
    bad: "UpdateConfig (demo_host ?e) [7, 8] (demo_world [Running]) = (r2, h2, w2)"
    by (metis prod_cases3)
  have acc: "fst (Driver_UpdateConfigRaw (Driver (demo_host None)) [7, 8]
               (dstate (demo_world [Running]))) = None"
    by (simp add: demo_host_def scripted_driver_def scripted_UpdateConfigRaw_def)
  have rej: "fst (Driver_UpdateConfigRaw (Driver (demo_host ?e)) [7, 8]
               (dstate (demo_world [Running]))) \<noteq> None"
    by (simp add: demo_host_def scripted_driver_def scripted_UpdateConfigRaw_def)
  from UpdateConfig_atomic[OF ok] acc have "RawDriver h' = [7, 8]"
    by blast
  moreover from UpdateConfig_atomic[OF bad] rej have "h2 = demo_host ?e"
    by blast
  moreover have "RawDriver (demo_host x) = [1, 2]" for x
    by (simp add: demo_host_def)
  ultimately show ?thesis
    by (simp add: ok bad)
qed

text \<open>
  Claim C6. \<open>Start\<close>, \<open>Stop\<close>, \<open>Kill\<close>, \<open>Restart\<close> and \<open>URL\<close> leave the Host record as it
  was, whatever they return: no field of it (\<open>ConfigVersion\<close>, \<open>DriverName\<close>,
  \<open>DriverPath\<close>, \<open>HostOptions\<close>, \<open>Name\<close>, \<open>RawDriver\<close>) changes. So only \<open>UpdateConfig\<close>
  ever writes \<open>RawDriver\<close>.
\<close>

theorem host_frame:
  "fst (snd (Start n h w)) = h \<and> fst (snd (Stop n h w)) = h \<and> fst (snd (Kill n h w)) = h \<and>
   fst (snd (Restart n h w)) = h \<and> fst (snd (URL h w)) = h"
  by (simp add: Start_host Stop_host Kill_host Restart_host URL_host)


subsection \<open>Operations with a target state\<close>

lemma WaitFor_waited:
  assumes "WaitFor n (MachineInState d s) w = (r, w')"
  shows "waited d s n (dstate w) (calls w) r w'"
  using WaitFor_MachineInState[OF assms]
  by (auto simp: waited_def polled_def)

lemma WaitFor_logs: "WaitFor n (MachineInState d s) w = (r, w') \<Longrightarrow> logs w' = logs w"
  using WaitFor_MachineInState[of n d s w r w'] by (auto simp: polled_def)

lemma waited_logs: "waited d s n x cs r w' \<Longrightarrow> waited d s n x cs r (log_Infof f a w')"
  by (simp add: waited_def log_Infof_def)

lemma runActionForState_run:
  assumes "runActionForState n h (invoke c a) target w = (r, h', w')"
  shows "(reported (Driver h) 0 (dstate w) = target \<longrightarrow>
            r = Some (ErrHostAlreadyInState (Name h) target) \<and>
            calls w' = calls w @ [CallGetState] \<and>
            dstate w' = driver_after (Driver h) (Suc 0) (dstate w)) \<and>
         (reported (Driver h) 0 (dstate w) \<noteq> target \<longrightarrow>
            (case a (driver_after (Driver h) (Suc 0) (dstate w)) of
               (Some e, x) \<Rightarrow>
                 r = Some (DriverError e) \<and> calls w' = calls w @ [CallGetState, c] \<and> dstate w' = x
             | (None, x) \<Rightarrow>
                 waited (Driver h) target n x (calls w @ [CallGetState, c]) r w'))"
proof -
  let ?d = "Driver h"
  let ?w1 = "polled ?d (Suc 0) w"
  have probe: "MachineInState ?d target w = (reported ?d 0 (dstate w) = target, ?w1)"
    by (rule MachineInState_eq)
  have w1: "calls ?w1 = calls w @ [CallGetState]" "dstate ?w1 = driver_after ?d (Suc 0) (dstate w)"
    by (simp_all add: polled_def)
  show ?thesis
  proof (cases "reported ?d 0 (dstate w) = target")
    case True
    with assms probe have "r = Some (ErrHostAlreadyInState (Name h) target)" "w' = ?w1"
      by (auto simp: runActionForState_def)
    with True w1 show ?thesis by simp
  next
    case False
    obtain e x where act: "a (driver_after ?d (Suc 0) (dstate w)) = (e, x)"
      by (cases "a (driver_after ?d (Suc 0) (dstate w))")
    let ?w2 = "?w1\<lparr>dstate := x, calls := calls ?w1 @ [c]\<rparr>"
    have inv: "invoke c a ?w1 = (e, ?w2)"
      using act w1 by (simp add: invoke_def)
    have w2: "calls ?w2 = calls w @ [CallGetState, c]" "dstate ?w2 = x"
      using w1 by simp_all
    show ?thesis
    proof (cases e)
      case (Some e')
      with assms probe False inv have "r = Some (DriverError e')" "w' = ?w2"
        by (auto simp: runActionForState_def)
      with False act Some w2 show ?thesis by simp
    next
      case None
      with assms probe False inv
      have "WaitFor n (MachineInState ?d target) ?w2 = (r, w')"
        by (auto simp: runActionForState_def split: prod.splits)
      from WaitFor_waited[OF this] have "waited ?d target n x (calls w @ [CallGetState, c]) r w'"
        unfolding w2 .
      with False act None show ?thesis by simp
    qed
  qed
qed

lemma guarded_run:
  assumes "(case runActionForState n h (invoke c a) target (log_Infof f1 (Name h) w) of
              (Some err, h0, w0) \<Rightarrow> (Some err, h0, w0)
            | (None, h0, w0) \<Rightarrow> (None, h0, log_Infof f2 (Name h0) w0)) = (r, h', w')"
  shows "(reported (Driver h) 0 (dstate w) = target \<longrightarrow>
            r = Some (ErrHostAlreadyInState (Name h) target) \<and>
            calls w' = calls w @ [CallGetState] \<and>
            dstate w' = driver_after (Driver h) (Suc 0) (dstate w)) \<and>
         (reported (Driver h) 0 (dstate w) \<noteq> target \<longrightarrow>
            (case a (driver_after (Driver h) (Suc 0) (dstate w)) of
               (Some e, x) \<Rightarrow>
                 r = Some (DriverError e) \<and> calls w' = calls w @ [CallGetState, c] \<and> dstate w' = x
             | (None, x) \<Rightarrow>
                 waited (Driver h) target n x (calls w @ [CallGetState, c]) r w'))"
proof -
  let ?w = "log_Infof f1 (Name h) w"
  obtain r0 h0 w0 where
    run: "runActionForState n h (invoke c a) target ?w = (r0, h0, w0)"
    by (metis prod_cases3)
  have same: "dstate ?w = dstate w" "calls ?w = calls w"
    by (simp_all add: log_Infof_def)
  note inner = runActionForState_run[OF run, unfolded same]
  show ?thesis
  proof (cases r0)
    case (Some err)
    with assms run have "r0 = r" "w0 = w'" by auto
    from inner[unfolded this] show ?thesis .
  next
    case None
    with assms run have eq: "r = r0" "w' = log_Infof f2 (Name h0) w0" by auto
    have keep: "calls w' = calls w0" "dstate w' = dstate w0"
      by (simp_all add: eq log_Infof_def)
    have "waited (Driver h) target n x cs r0 w0 \<Longrightarrow> waited (Driver h) target n x cs r w'" for x cs
      unfolding eq by (rule waited_logs)
    with inner eq(1) keep show ?thesis
      by (auto split: prod.splits option.splits)
  qed
qed

text \<open>
  Claim C1. Let the operation be \<open>Start\<close> (target \<open>Running\<close>), \<open>Stop\<close> or \<open>Kill\<close> (target
  \<open>Stopped\<close>), run with a wait budget of \<open>n\<close> attempts. If the driver reports the target
  state, the operation returns \<open>ErrHostAlreadyInState\<close> with the Host's name and the target,
  and the only driver call made is that one \<open>GetState\<close>: the action is not invoked.
  Otherwise the operation calls the driver's action exactly once, right after that
  \<open>GetState\<close>. If the action fails, its error comes back unchanged and nothing else is
  called. If it succeeds, the operation polls \<open>GetState\<close>: it returns success at the first
  poll that reports the target state, and the wait utility's timeout when none of its
  \<open>n\<close> polls did.
\<close>

theorem lifecycle_operation:
  assumes "(operation, action, c, target) \<in> set lifecycle_ops"
    and "operation n h w = (r, h', w')"
  shows "(reported (Driver h) 0 (dstate w) = target \<longrightarrow>
            r = Some (ErrHostAlreadyInState (Name h) target) \<and>
            calls w' = calls w @ [CallGetState] \<and>
            dstate w' = driver_after (Driver h) (Suc 0) (dstate w)) \<and>
         (reported (Driver h) 0 (dstate w) \<noteq> target \<longrightarrow>
            (case action (Driver h) (driver_after (Driver h) (Suc 0) (dstate w)) of
               (Some e, x) \<Rightarrow>
                 r = Some (DriverError e) \<and> calls w' = calls w @ [CallGetState, c] \<and> dstate w' = x
             | (None, x) \<Rightarrow>
                 waited (Driver h) target n x (calls w @ [CallGetState, c]) r w'))"
proof -
  from assms(1) consider
      "operation = Start" "action = Driver_Start" "c = CallStart" "target = Running"
    | "operation = Stop" "action = Driver_Stop" "c = CallStop" "target = Stopped"
    | "operation = Kill" "action = Driver_Kill" "c = CallKill" "target = Stopped"
    by (auto simp: lifecycle_ops_def)
  then show ?thesis
  proof cases
    case 1
    with assms(2) have "Start n h w = (r, h', w')" by simp
    from guarded_run[OF this[unfolded Start_def]] show ?thesis
      unfolding 1 .
  next
    case 2
    with assms(2) have "Stop n h w = (r, h', w')" by simp
    from guarded_run[OF this[unfolded Stop_def]] show ?thesis
      unfolding 2 .
  next
    case 3
    with assms(2) have "Kill n h w = (r, h', w')" by simp
    from guarded_run[OF this[unfolded Kill_def]] show ?thesis
      unfolding 3 .
  qed
qed

lemma demo_reported_0: "reported (Driver (demo_host e)) 0 (s # ss) = s"
  by (cases ss) (simp_all add: reported_0 demo_host_def scripted_driver_def)

lemma demo_after_1:
  "driver_after (Driver (demo_host e)) (Suc 0) (s # t # ss) = t # ss"
  "driver_after (Driver (demo_host e)) (Suc 0) [s] = [s]"
  by (simp_all add: driver_after_Suc driver_after_0 demo_host_def scripted_driver_def)

lemma demo_world_sel: "dstate (demo_world ss) = ss" "calls (demo_world ss) = []"
  by (simp_all add: demo_world_def)

theorem lifecycle_operation_witness:
  "(Start, Driver_Start, CallStart, Running) \<in> set lifecycle_ops \<and>
   reported (Driver (demo_host None)) 0 (dstate (demo_world [Stopped, Starting, Running])) \<noteq> Running \<and>
   waited (Driver (demo_host None)) Running 3 [Starting, Running] [CallGetState, CallStart]
     (fst (Start 3 (demo_host None) (demo_world [Stopped, Starting, Running])))
     (snd (snd (Start 3 (demo_host None) (demo_world [Stopped, Starting, Running])))) \<and>
   (Stop, Driver_Stop, CallStop, Stopped) \<in> set lifecycle_ops \<and>
   reported (Driver (demo_host None)) 0 (dstate (demo_world [Stopped])) = Stopped \<and>
   fst (Stop 3 (demo_host None) (demo_world [Stopped])) = Some (ErrHostAlreadyInState ''crc'' Stopped) \<and>
   calls (snd (snd (Stop 3 (demo_host None) (demo_world [Stopped])))) = [CallGetState] \<and>
   (Kill, Driver_Kill, CallKill, Stopped) \<in> set lifecycle_ops \<and>
   reported (Driver (demo_host (Some (ErrorString ''no such domain'')))) 0
     (dstate (demo_world [Running])) \<noteq> Stopped \<and>
   fst (Kill 3 (demo_host (Some (ErrorString ''no such domain''))) (demo_world [Running])) =
     Some (DriverError (ErrorString ''no such domain'')) \<and>
   calls (snd (snd (Kill 3 (demo_host (Some (ErrorString ''no such domain''))) (demo_world [Running])))) =
     [CallGetState, CallKill]"
proof -
  let ?bad = "demo_host (Some (ErrorString ''no such domain''))"
  have m1: "(Start, Driver_Start, CallStart, Running) \<in> set lifecycle_ops"
    and m2: "(Stop, Driver_Stop, CallStop, Stopped) \<in> set lifecycle_ops"
    and m3: "(Kill, Driver_Kill, CallKill, Stopped) \<in> set lifecycle_ops"
    by (simp_all add: lifecycle_ops_def)
  obtain r1 h1 w1 where
    run1: "Start 3 (demo_host None) (demo_world [Stopped, Starting, Running]) = (r1, h1, w1)"
    by (metis prod_cases3)
  obtain r2 h2 w2 where run2: "Stop 3 (demo_host None) (demo_world [Stopped]) = (r2, h2, w2)"
    by (metis prod_cases3)
  obtain r3 h3 w3 where run3: "Kill 3 ?bad (demo_world [Running]) = (r3, h3, w3)"
    by (metis prod_cases3)
  have act1: "Driver_Start (Driver (demo_host None)) x = (None, x)" for x
    by (simp add: demo_host_def scripted_driver_def)
  have act3: "Driver_Kill (Driver ?bad) x = (Some (ErrorString ''no such domain''), x)" for x
    by (simp add: demo_host_def scripted_driver_def)
  have name: "Name (demo_host None) = ''crc''"
    by (simp add: demo_host_def)
  from lifecycle_operation[OF m1 run1]
  have c1: "waited (Driver (demo_host None)) Running 3 [Starting, Running]
              [CallGetState, CallStart] r1 w1"
    by (simp add: demo_reported_0 demo_after_1 demo_world_sel act1)
  from lifecycle_operation[OF m2 run2]
  have c2: "r2 = Some (ErrHostAlreadyInState ''crc'' Stopped)" "calls w2 = [CallGetState]"
    by (simp_all add: demo_reported_0 demo_world_sel name)
  from lifecycle_operation[OF m3 run3]
  have c3: "r3 = Some (DriverError (ErrorString ''no such domain''))"
    "calls w3 = [CallGetState, CallKill]"
    by (simp_all add: demo_reported_0 demo_after_1 demo_world_sel act3)
  from m1 m2 m3 c1 c2 c3 show ?thesis
    by (simp add: run1 run2 run3 demo_reported_0 demo_world_sel)
qed


subsection \<open>Restart\<close>

text \<open>The three branches of \<open>Restart\<close>.\<close>

lemma Restart_cases:
  assumes "Restart n h w = (r, h', w')"
  shows "(reported (Driver h) 0 (dstate w) = Stopped \<longrightarrow>
            (r, h', w') =
              Start n h (polled (Driver h) (Suc 0) (log_Infof ''Restarting %q...'' (Name h) w))) \<and>
         (reported (Driver h) 0 (dstate w) \<noteq> Stopped \<and>
          reported (Driver h) (Suc 0) (dstate w) = Running \<longrightarrow>
            (case Driver_Restart (Driver h) (driver_after (Driver h) (Suc (Suc 0)) (dstate w)) of
               (Some e, x) \<Rightarrow>
                 r = Some (DriverError e) \<and>
                 calls w' = calls w @ [CallGetState, CallGetState, CallRestart] \<and> dstate w' = x
             | (None, x) \<Rightarrow>
                 waited (Driver h) Running n x
                   (calls w @ [CallGetState, CallGetState, CallRestart]) r w')) \<and>
         (reported (Driver h) 0 (dstate w) \<noteq> Stopped \<and>
          reported (Driver h) (Suc 0) (dstate w) \<noteq> Running \<longrightarrow>
            r = None \<and> calls w' = calls w @ [CallGetState, CallGetState] \<and>
            dstate w' = driver_after (Driver h) (Suc (Suc 0)) (dstate w))"
proof -
  let ?d = "Driver h"
  let ?w0 = "log_Infof ''Restarting %q...'' (Name h) w"
  let ?w1 = "polled ?d (Suc 0) ?w0"
  let ?w2 = "polled ?d (Suc 0) ?w1"
  have w0: "dstate ?w0 = dstate w" "calls ?w0 = calls w"
    by (simp_all add: log_Infof_def)
  have probe1: "MachineInState ?d Stopped ?w0 = (reported ?d 0 (dstate w) = Stopped, ?w1)"
    using MachineInState_eq[of ?d Stopped ?w0] by (simp add: w0)
  have w1: "dstate ?w1 = driver_after ?d (Suc 0) (dstate w)" "calls ?w1 = calls w @ [CallGetState]"
    by (simp_all add: polled_def w0)
  have rep1: "reported ?d 0 (dstate ?w1) = reported ?d (Suc 0) (dstate w)"
    by (simp add: w1 reported_Suc driver_after_Suc driver_after_0)
  have probe2: "MachineInState ?d Running ?w1 = (reported ?d (Suc 0) (dstate w) = Running, ?w2)"
    using MachineInState_eq[of ?d Running ?w1] by (simp only: rep1)
  have w2: "dstate ?w2 = driver_after ?d (Suc (Suc 0)) (dstate w)"
    "calls ?w2 = calls w @ [CallGetState, CallGetState]"
    by (simp_all add: polled_def w0 driver_after_Suc driver_after_0)
  show ?thesis
  proof (cases "reported ?d 0 (dstate w) = Stopped")
    case True
    have ident: "(case x of (Some err, h0, w0) \<Rightarrow> (Some err, h0, w0)
                   | (None, h0, w0) \<Rightarrow> (None, h0, w0)) = x"
      for x :: "error option \<times> 'a Host \<times> 'a world"
      by (cases x) (auto split: option.splits)
    from assms probe1 True have "Start n h ?w1 = (r, h', w')"
      by (simp add: Restart_def ident)
    with True show ?thesis by simp
  next
    case False
    show ?thesis
    proof (cases "reported ?d (Suc 0) (dstate w) = Running")
      case running: True
      obtain e x where act: "Driver_Restart ?d (driver_after ?d (Suc (Suc 0)) (dstate w)) = (e, x)"
        by (cases "Driver_Restart ?d (driver_after ?d (Suc (Suc 0)) (dstate w))")
      let ?w3 = "?w2\<lparr>dstate := x, calls := calls ?w2 @ [CallRestart]\<rparr>"
      have inv: "invoke CallRestart (Driver_Restart ?d) ?w2 = (e, ?w3)"
        using act w2 by (simp add: invoke_def)
      have w3: "calls ?w3 = calls w @ [CallGetState, CallGetState, CallRestart]" "dstate ?w3 = x"
        using w2 by simp_all
      show ?thesis
      proof (cases e)
        case (Some e')
        with assms probe1 probe2 False running inv
        have "r = Some (DriverError e')" "w' = ?w3"
          by (auto simp: Restart_def)
        with False running act Some w3 show ?thesis by simp
      next
        case None
        obtain r4 w4 where wait: "WaitFor n (MachineInState ?d Running) ?w3 = (r4, w4)"
          by (cases "WaitFor n (MachineInState ?d Running) ?w3")
        with assms probe1 probe2 False running inv None
        have "r4 = r" "w4 = w'"
          by (auto simp: Restart_def split: option.splits)
        with WaitFor_waited[OF wait]
        have "waited ?d Running n x (calls w @ [CallGetState, CallGetState, CallRestart]) r w'"
          unfolding w3 by simp
        with False running act None show ?thesis by simp
      qed
    next
      case other: False
      with assms probe1 probe2 False have "r = None" "w' = ?w2"
        by (auto simp: Restart_def)
      with False other w2 show ?thesis by simp
    qed
  qed
qed


text \<open>A wait from a given driver state has one outcome.\<close>

lemma waited_unique:
  assumes "waited d s n x cs r w'" and "waited d s n x cs' r' w''"
  shows "r = r' \<and> dstate w' = dstate w'' \<and>
         (\<exists>suf. calls w' = cs @ suf \<and> calls w'' = cs' @ suf)"
proof -
  have first: "k = k'"
    if "reported d k x = s" "\<forall>j<k. reported d j x \<noteq> s"
      "reported d k' x = s" "\<forall>j<k'. reported d j x \<noteq> s" for k k'
  proof -
    from that(1,4) have "\<not> k < k'" by blast
    moreover from that(2,3) have "\<not> k' < k" by blast
    ultimately show ?thesis by simp
  qed
  from assms show ?thesis
    unfolding waited_def
  proof (elim disjE conjE exE)
    fix k k'
    assume "r = None" "r' = None"
      and k: "reported d k x = s" "\<forall>j<k. reported d j x \<noteq> s"
        "calls w' = cs @ replicate (Suc k) CallGetState" "dstate w' = driver_after d (Suc k) x"
      and k': "reported d k' x = s" "\<forall>j<k'. reported d j x \<noteq> s"
        "calls w'' = cs' @ replicate (Suc k') CallGetState" "dstate w'' = driver_after d (Suc k') x"
    moreover from k k' have "k = k'" by (intro first)
    ultimately show ?thesis by auto
  next
    fix k
    assume "k < n" "reported d k x = s" "\<forall>j<n. reported d j x \<noteq> s"
    then show ?thesis by blast
  next
    fix k
    assume "k < n" "reported d k x = s" "\<forall>j<n. reported d j x \<noteq> s"
    then show ?thesis by blast
  next
    assume "r = Some ErrTimeout" "r' = Some ErrTimeout"
      "calls w' = cs @ replicate n CallGetState" "dstate w' = driver_after d n x"
      "calls w'' = cs' @ replicate n CallGetState" "dstate w'' = driver_after d n x"
    then show ?thesis by auto
  qed
qed

text \<open>
  A guarded operation run in two worlds whose driver is in the same state gives the same
  result, leaves the driver in the same state and makes the same driver calls.
\<close>

lemma guarded_same:
  assumes "(case runActionForState n h (invoke c a) target (log_Infof f1 (Name h) w) of
              (Some err, h0, w0) \<Rightarrow> (Some err, h0, w0)
            | (None, h0, w0) \<Rightarrow> (None, h0, log_Infof f2 (Name h0) w0)) = (r, h', w')"
    and "(case runActionForState n h (invoke c a) target (log_Infof f1 (Name h) v) of
              (Some err, h0, w0) \<Rightarrow> (Some err, h0, w0)
            | (None, h0, w0) \<Rightarrow> (None, h0, log_Infof f2 (Name h0) w0)) = (q, g', v')"
    and "dstate v = dstate w"
  shows "r = q \<and> dstate w' = dstate v' \<and>
         (\<exists>suf. calls w' = calls w @ suf \<and> calls v' = calls v @ suf)"
proof -
  let ?x = "driver_after (Driver h) (Suc 0) (dstate w)"
  note rw = guarded_run[OF assms(1)]
  note rv = guarded_run[OF assms(2), unfolded assms(3)]
  show ?thesis
  proof (cases "reported (Driver h) 0 (dstate w) = target")
    case True
    with rw rv show ?thesis by simp
  next
    case False
    obtain e y where act: "a ?x = (e, y)"
      by (cases "a ?x")
    show ?thesis
    proof (cases e)
      case (Some e')
      with rw rv False act show ?thesis by simp
    next
      case None
      with rw rv False act
      have "waited (Driver h) target n y (calls w @ [CallGetState, c]) r w'"
        "waited (Driver h) target n y (calls v @ [CallGetState, c]) q v'"
        by simp_all
      from waited_unique[OF this] show ?thesis by auto
    qed
  qed
qed

lemma Start_same:
  assumes "Start n h w = (r, h', w')" and "Start n h v = (q, g', v')" and "dstate v = dstate w"
  shows "r = q \<and> dstate w' = dstate v' \<and>
         (\<exists>suf. calls w' = calls w @ suf \<and> calls v' = calls v @ suf)"
  using guarded_same[OF assms(1)[unfolded Start_def] assms(2)[unfolded Start_def] assms(3)] .

text \<open>
  Claim C2. \<open>Restart\<close> first asks the driver whether it is \<open>Stopped\<close>. If so, it is
  \<open>Start\<close>: it returns what \<open>Start\<close>, called at that point, returns; and when that first
  question left the driver's state as it was, \<open>Restart\<close> has the result of \<open>Start\<close> run in
  its place, leaves the driver in the same state and makes, after its one \<open>GetState\<close>,
  exactly the driver calls of \<open>Start\<close>. If the driver is not \<open>Stopped\<close>, \<open>Restart\<close> asks
  whether it is \<open>Running\<close>. If so, it calls the driver's \<open>Restart\<close> exactly once; an error
  of that call comes back unchanged; after a successful call it polls \<open>GetState\<close> until
  \<open>Running\<close> is reported and returns the wait's failure when none of the \<open>n\<close> polls
  reported it. In every other state (\<open>Paused\<close>, \<open>Error\<close>, a state in transition) it
  returns success after the two \<open>GetState\<close> calls, having invoked no driver action.
\<close>

theorem Restart_run:
  assumes "Restart n h w = (r, h', w')"
  shows "(reported (Driver h) 0 (dstate w) = Stopped \<longrightarrow>
            (r, h', w') =
              Start n h (polled (Driver h) (Suc 0) (log_Infof ''Restarting %q...'' (Name h) w))) \<and>
         (reported (Driver h) 0 (dstate w) = Stopped \<and>
          driver_after (Driver h) (Suc 0) (dstate w) = dstate w \<longrightarrow>
            r = fst (Start n h w) \<and> dstate w' = dstate (snd (snd (Start n h w))) \<and>
            (\<exists>suf. calls (snd (snd (Start n h w))) = calls w @ suf \<and>
                   calls w' = calls w @ CallGetState # suf)) \<and>
         (reported (Driver h) 0 (dstate w) \<noteq> Stopped \<and>
          reported (Driver h) (Suc 0) (dstate w) = Running \<longrightarrow>
            (case Driver_Restart (Driver h) (driver_after (Driver h) (Suc (Suc 0)) (dstate w)) of
               (Some e, x) \<Rightarrow>
                 r = Some (DriverError e) \<and>
                 calls w' = calls w @ [CallGetState, CallGetState, CallRestart] \<and> dstate w' = x
             | (None, x) \<Rightarrow>
                 waited (Driver h) Running n x
                   (calls w @ [CallGetState, CallGetState, CallRestart]) r w')) \<and>
         (reported (Driver h) 0 (dstate w) \<noteq> Stopped \<and>
          reported (Driver h) (Suc 0) (dstate w) \<noteq> Running \<longrightarrow>
            r = None \<and> calls w' = calls w @ [CallGetState, CallGetState] \<and>
            dstate w' = driver_after (Driver h) (Suc (Suc 0)) (dstate w))"
  (is "?delegates \<and> ?like_start \<and> ?restarts \<and> ?nothing")
proof -
  let ?w1 = "polled (Driver h) (Suc 0) (log_Infof ''Restarting %q...'' (Name h) w)"
  note cases = Restart_cases[OF assms]
  have same: "r = fst (Start n h w) \<and> dstate w' = dstate (snd (snd (Start n h w))) \<and>
            (\<exists>suf. calls (snd (snd (Start n h w))) = calls w @ suf \<and>
                   calls w' = calls w @ CallGetState # suf)"
    if stopped: "reported (Driver h) 0 (dstate w) = Stopped"
      and pure: "driver_after (Driver h) (Suc 0) (dstate w) = dstate w"
  proof -
    from cases stopped have run1: "Start n h ?w1 = (r, h', w')" by simp
    obtain q g v' where run0: "Start n h w = (q, g, v')"
      by (metis prod_cases3)
    have st: "dstate ?w1 = dstate w" and cs: "calls ?w1 = calls w @ [CallGetState]"
      using pure by (simp_all add: polled_def log_Infof_def)
    from Start_same[OF run0 run1 st] obtain suf where
      "q = r" "dstate v' = dstate w'" "calls v' = calls w @ suf" "calls w' = calls ?w1 @ suf"
      by blast
    then show ?thesis
      by (simp add: run0 cs)
  qed
  have a: ?delegates
    using cases by (rule conjunct1)
  have b: ?like_start
    using same by (iprover elim: conjE)
  have c: ?restarts
    using cases by (iprover elim: conjE)
  have d: ?nothing
    using cases by (iprover elim: conjE)
  from a b c d show ?thesis
    by (iprover intro: conjI)
qed

lemma demo_reported_1: "reported (Driver (demo_host e)) (Suc 0) (s # t # ss) = t"
  "reported (Driver (demo_host e)) (Suc 0) [s] = s"
  using demo_reported_0[of e t ss] demo_reported_0[of e s "[]"]
  by (simp_all add: reported_Suc demo_host_def scripted_driver_def)

lemma demo_after_2:
  "driver_after (Driver (demo_host e)) (Suc (Suc 0)) (s # t # u # ss) = u # ss"
  "driver_after (Driver (demo_host e)) (Suc (Suc 0)) [s] = [s]"
  by (simp_all add: driver_after_Suc driver_after_0 demo_host_def scripted_driver_def)

theorem Restart_run_witness:
  "reported (Driver (demo_host None)) 0 (dstate (demo_world [Stopped, Stopped, Starting, Running])) = Stopped \<and>
   Restart 3 (demo_host None) (demo_world [Stopped, Stopped, Starting, Running]) =
     Start 3 (demo_host None)
       (polled (Driver (demo_host None)) (Suc 0)
          (log_Infof ''Restarting %q...'' (Name (demo_host None))
             (demo_world [Stopped, Stopped, Starting, Running]))) \<and>
   reported (Driver (demo_host None)) 0 (dstate (demo_world [Running, Running, Starting, Running])) \<noteq> Stopped \<and>
   reported (Driver (demo_host None)) (Suc 0) (dstate (demo_world [Running, Running, Starting, Running])) = Running \<and>
   waited (Driver (demo_host None)) Running 3 [Starting, Running]
     [CallGetState, CallGetState, CallRestart]
     (fst (Restart 3 (demo_host None) (demo_world [Running, Running, Starting, Running])))
     (snd (snd (Restart 3 (demo_host None) (demo_world [Running, Running, Starting, Running])))) \<and>
   driver_after (Driver (demo_host None)) (Suc 0) (dstate (demo_world [Stopped])) =
     dstate (demo_world [Stopped]) \<and>
   fst (Restart 3 (demo_host None) (demo_world [Stopped])) =
     fst (Start 3 (demo_host None) (demo_world [Stopped])) \<and>
   reported (Driver (demo_host None)) 0 (dstate (demo_world [Paused])) \<noteq> Stopped \<and>
   reported (Driver (demo_host None)) (Suc 0) (dstate (demo_world [Paused])) \<noteq> Running \<and>
   fst (Restart 3 (demo_host None) (demo_world [Paused])) = None \<and>
   calls (snd (snd (Restart 3 (demo_host None) (demo_world [Paused])))) = [CallGetState, CallGetState]"
proof -
  obtain r1 h1 w1 where
    run1: "Restart 3 (demo_host None) (demo_world [Stopped, Stopped, Starting, Running]) = (r1, h1, w1)"
    by (metis prod_cases3)
  obtain r2 h2 w2 where
    run2: "Restart 3 (demo_host None) (demo_world [Running, Running, Starting, Running]) = (r2, h2, w2)"
    by (metis prod_cases3)
  obtain r3 h3 w3 where run3: "Restart 3 (demo_host None) (demo_world [Paused]) = (r3, h3, w3)"
    by (metis prod_cases3)
  obtain r4 h4 w4 where run4: "Restart 3 (demo_host None) (demo_world [Stopped]) = (r4, h4, w4)"
    by (metis prod_cases3)
  have act: "Driver_Restart (Driver (demo_host None)) x = (None, x)" for x
    by (simp add: demo_host_def scripted_driver_def)
  from Restart_run[OF run1]
  have c1: "(r1, h1, w1) =
     Start 3 (demo_host None)
       (polled (Driver (demo_host None)) (Suc 0)
          (log_Infof ''Restarting %q...'' (Name (demo_host None))
             (demo_world [Stopped, Stopped, Starting, Running])))"
    by (simp add: demo_reported_0 demo_world_sel)
  from Restart_run[OF run2]
  have c2: "waited (Driver (demo_host None)) Running 3 [Starting, Running]
              [CallGetState, CallGetState, CallRestart] r2 w2"
    by (simp add: demo_reported_0 demo_reported_1 demo_after_2 demo_world_sel act)
  from Restart_run[OF run3]
  have c3: "r3 = None" "calls w3 = [CallGetState, CallGetState]"
    by (simp_all add: demo_reported_0 demo_reported_1 demo_world_sel)
  from Restart_run[OF run4]
  have c4: "r4 = fst (Start 3 (demo_host None) (demo_world [Stopped]))"
    by (simp add: demo_reported_0 demo_after_1 demo_world_sel)
  from c1 c2 c3 c4 show ?thesis
    by (simp add: run1 run2 run3 run4 demo_reported_0 demo_reported_1 demo_after_1 demo_world_sel)
qed

subsection \<open>The error of UpdateConfig\<close>

text \<open>
  Claim C4 as stated: whenever the driver's \<open>UpdateConfigRaw\<close> fails with an error whose
  message is exactly "Not Implemented", \<open>UpdateConfig\<close> returns the typed
  \<open>ErrNotImplemented\<close>. It fails for an error with that message that is not an
  \<open>rpc.ServerError\<close>: \<open>errors.As\<close> is false and the driver's error comes back as it is.
\<close>

theorem UpdateConfig_message_counterexample:
  "fst (Driver_UpdateConfigRaw (Driver (demo_host (Some (ErrorString ''Not Implemented'')))) [7, 8]
          (dstate (demo_world [Running]))) = Some (ErrorString ''Not Implemented'') \<and>
   err_Error (ErrorString ''Not Implemented'') = ''Not Implemented'' \<and>
   fst (UpdateConfig (demo_host (Some (ErrorString ''Not Implemented''))) [7, 8] (demo_world [Running])) =
     Some (DriverError (ErrorString ''Not Implemented'')) \<and>
   fst (UpdateConfig (demo_host (Some (ErrorString ''Not Implemented''))) [7, 8] (demo_world [Running])) \<noteq>
     Some ErrNotImplemented"
  by (simp add: UpdateConfig_def invoke_def demo_host_def demo_world_def scripted_driver_def
      scripted_UpdateConfigRaw_def)

text \<open>
  Claim C4, amended. When the driver's \<open>UpdateConfigRaw\<close> fails with an error that is, or
  wraps, an \<open>rpc.ServerError\<close> and whose message is exactly "Not Implemented",
  \<open>UpdateConfig\<close> returns the typed \<open>ErrNotImplemented\<close> and not the driver's error; every
  other failure of the call comes back unchanged.
\<close>

theorem UpdateConfig_error:
  assumes "fst (Driver_UpdateConfigRaw (Driver h) rawConfig (dstate w)) = Some err"
  shows "fst (UpdateConfig h rawConfig w) =
           (if errors_As_ServerError err \<and> err_Error err = ''Not Implemented''
            then Some ErrNotImplemented else Some (DriverError err))"
  using assms by (auto simp: UpdateConfig_def invoke_def split: prod.splits)

theorem UpdateConfig_error_witness:
  "fst (UpdateConfig (demo_host (Some (ServerError ''Not Implemented''))) [7, 8] (demo_world [Running])) =
     Some ErrNotImplemented \<and>
   fst (UpdateConfig (demo_host (Some (WrapError ''Not Implemented'' (ServerError ''rpc''))))
     [7, 8] (demo_world [Running])) = Some ErrNotImplemented \<and>
   fst (UpdateConfig (demo_host (Some (ServerError ''not implemented''))) [7, 8] (demo_world [Running])) =
     Some (DriverError (ServerError ''not implemented''))"
proof -
  have drv: "fst (Driver_UpdateConfigRaw (Driver (demo_host (Some e))) [7, 8]
               (dstate (demo_world [Running]))) = Some e" for e
    by (simp add: demo_host_def scripted_driver_def scripted_UpdateConfigRaw_def)
  from UpdateConfig_error[OF drv[of "ServerError ''Not Implemented''"]]
    UpdateConfig_error[OF drv[of "WrapError ''Not Implemented'' (ServerError ''rpc'')"]]
    UpdateConfig_error[OF drv[of "ServerError ''not implemented''"]]
  show ?thesis by simp
qed

subsection \<open>Host names\<close>

text \<open>The matcher decides membership in the language of the expression.\<close>

lemma nullable_lang: "nullable r \<longleftrightarrow> [] \<in> lang r"
proof (induction r)
  case (Star r)
  show ?case by (simp add: lang_star.empty)
qed auto

lemma lang_star_split:
  assumes "x \<in> lang_star L" and "x = c # s"
  shows "\<exists>u v. s = u @ v \<and> c # u \<in> L \<and> v \<in> lang_star L"
  using assms
proof (induction rule: lang_star.induct)
  case empty
  then show ?case by simp
next
  case (append u v)
  show ?case
  proof (cases u)
    case Nil
    with append show ?thesis by simp
  next
    case (Cons a u')
    with append.prems have "a = c" "s = u' @ v" by simp_all
    with Cons append.hyps show ?thesis by blast
  qed
qed

lemma lang_star_Cons:
  "c # s \<in> lang_star L \<longleftrightarrow> (\<exists>u v. s = u @ v \<and> c # u \<in> L \<and> v \<in> lang_star L)"
proof
  assume "c # s \<in> lang_star L"
  then show "\<exists>u v. s = u @ v \<and> c # u \<in> L \<and> v \<in> lang_star L"
    by (rule lang_star_split) simp
next
  assume "\<exists>u v. s = u @ v \<and> c # u \<in> L \<and> v \<in> lang_star L"
  then obtain u v where uv: "s = u @ v" "c # u \<in> L" "v \<in> lang_star L" by blast
  then have "(c # u) @ v \<in> lang_star L"
    by (intro lang_star.append)
  with uv(1) show "c # s \<in> lang_star L" by simp
qed

lemma lang_deriv: "s \<in> lang (deriv c r) \<longleftrightarrow> c # s \<in> lang r"
proof (induction r arbitrary: s)
  case Zero
  show ?case by simp
next
  case One
  show ?case by simp
next
  case (Class rs)
  show ?case by auto
next
  case (Plus r1 r2)
  then show ?case by simp
next
  case (Times r1 r2)
  have split: "c # s \<in> lang (Times r1 r2) \<longleftrightarrow>
      ([] \<in> lang r1 \<and> c # s \<in> lang r2) \<or>
      (\<exists>u v. s = u @ v \<and> c # u \<in> lang r1 \<and> v \<in> lang r2)"
  proof
    assume "c # s \<in> lang (Times r1 r2)"
    then obtain u v where uv: "c # s = u @ v" "u \<in> lang r1" "v \<in> lang r2" by auto
    show "([] \<in> lang r1 \<and> c # s \<in> lang r2) \<or>
      (\<exists>u v. s = u @ v \<and> c # u \<in> lang r1 \<and> v \<in> lang r2)"
    proof (cases u)
      case Nil
      with uv show ?thesis by simp
    next
      case (Cons a u')
      with uv have "a = c" "s = u' @ v" by simp_all
      with Cons uv show ?thesis by blast
    qed
  next
    assume "([] \<in> lang r1 \<and> c # s \<in> lang r2) \<or>
      (\<exists>u v. s = u @ v \<and> c # u \<in> lang r1 \<and> v \<in> lang r2)"
    then show "c # s \<in> lang (Times r1 r2)"
    proof
      assume "[] \<in> lang r1 \<and> c # s \<in> lang r2"
      then have "[] @ (c # s) \<in> lang (Times r1 r2)"
        unfolding lang.simps by blast
      then show ?thesis by simp
    next
      assume "\<exists>u v. s = u @ v \<and> c # u \<in> lang r1 \<and> v \<in> lang r2"
      then obtain u v where "s = u @ v" "c # u \<in> lang r1" "v \<in> lang r2" by blast
      then have "(c # u) @ v \<in> lang (Times r1 r2)"
        unfolding lang.simps by blast
      with \<open>s = u @ v\<close> show ?thesis by simp
    qed
  qed
  have left: "s \<in> lang (Times (deriv c r1) r2) \<longleftrightarrow>
      (\<exists>u v. s = u @ v \<and> c # u \<in> lang r1 \<and> v \<in> lang r2)"
    using Times.IH(1) by auto
  show ?case
  proof (cases "nullable r1")
    case True
    then have "[] \<in> lang r1" by (simp add: nullable_lang)
    with True left Times.IH(2) split show ?thesis by auto
  next
    case False
    then have "[] \<notin> lang r1" by (simp add: nullable_lang)
    with False left split show ?thesis by auto
  qed
next
  case (Star r)
  have "s \<in> lang (deriv c (Star r)) \<longleftrightarrow>
      (\<exists>u v. s = u @ v \<and> c # u \<in> lang r \<and> v \<in> lang_star (lang r))"
    using Star.IH by auto
  then show ?case
    by (simp add: lang_star_Cons)
qed

lemma matches_lang: "matches r s \<longleftrightarrow> s \<in> lang r"
  by (induction s arbitrary: r) (simp_all add: nullable_lang lang_deriv)

lemma matches_Zero: "matches Zero s = False"
  by (induction s) simp_all

lemma matches_Plus: "matches (Plus r1 r2) s = (matches r1 s \<or> matches r2 s)"
  by (induction s arbitrary: r1 r2) simp_all

lemma matches_Times_Zero: "matches (Times Zero r) s = False"
  by (induction s) simp_all

lemma matches_Times_One_Star_Class:
  "matches (Times One (Star (Class rs))) s = (\<forall>c\<in>set s. in_class c rs)"
proof (induction s)
  case Nil
  then show ?case by simp
next
  case (Cons c cs)
  then show ?case
    by (simp add: matches_Plus matches_Times_Zero)
qed

lemma matches_Class_Star_Class:
  "matches (Times (Class rs1) (Star (Class rs2))) s =
     (\<exists>c cs. s = c # cs \<and> in_class c rs1 \<and> (\<forall>x\<in>set cs. in_class x rs2))"
  by (cases s) (simp_all add: matches_Times_One_Star_Class matches_Times_Zero)

text \<open>A pattern anchored at both ends matches a text only as a whole.\<close>

lemma MatchString_anchored:
  assumes "anchor_begin p" and "anchor_end p"
  shows "MatchString p s = matches (body p) s"
proof -
  have "MatchString p s =
          (\<exists>i\<in>set [0..<Suc (length s)]. \<exists>j\<in>set [i..<Suc (length s)].
             i = 0 \<and> j = length s \<and> matches (body p) (take (j - i) (drop i s)))"
    using assms by (simp add: MatchString_def list_ex_iff)
  also have "\<dots> = matches (body p) s"
    by auto
  finally show ?thesis .
qed

lemma in_range_le: "in_range c (lo, hi) = (lo \<le> c \<and> c \<le> hi)"
  by (simp add: in_range_def less_eq_char_def)

lemma char_between_same: "(d \<le> c \<and> c \<le> d) = (c = d)" for c d :: char
  by auto

lemma in_class_alnum_source:
  "in_class c [(CHR ''a'', CHR ''z''), (CHR ''A'', CHR ''Z''), (CHR ''0'', CHR ''9'')] = alnum c"
  by (auto simp: in_class_def in_range_le alnum_def char_between_same)

lemma in_class_rest_source:
  "in_class c [(CHR ''a'', CHR ''z''), (CHR ''A'', CHR ''Z''), (CHR ''0'', CHR ''9''),
               (CHR ''-'', CHR ''-''), (CHR ''.'', CHR ''.'')] =
     (alnum c \<or> c = CHR ''.'' \<or> c = CHR ''-'')"
  by (auto simp: in_class_def in_range_le alnum_def char_between_same)

lemma in_class_alnum_spec:
  "in_class c [(CHR ''A'', CHR ''Z''), (CHR ''a'', CHR ''z''), (CHR ''0'', CHR ''9'')] = alnum c"
  by (auto simp: in_class_def in_range_le alnum_def char_between_same)

lemma in_class_rest_spec:
  "in_class c [(CHR ''A'', CHR ''Z''), (CHR ''a'', CHR ''z''), (CHR ''0'', CHR ''9''),
               (CHR ''.'', CHR ''.''), (CHR ''-'', CHR ''-'')] =
     (alnum c \<or> c = CHR ''.'' \<or> c = CHR ''-'')"
  by (auto simp: in_class_def in_range_le alnum_def char_between_same)

lemma ValidateHostName_iff:
  "ValidateHostName name \<longleftrightarrow>
     (\<exists>c cs. name = c # cs \<and> alnum c \<and> (\<forall>x\<in>set cs. alnum x \<or> x = CHR ''.'' \<or> x = CHR ''-''))"
proof -
  have "ValidateHostName name = matches (body validHostNamePattern) name"
    unfolding ValidateHostName_def
    by (rule MatchString_anchored) (simp_all add: validHostNamePattern_def)
  then show ?thesis
    by (simp add: validHostNamePattern_def matches_Class_Star_Class
        in_class_alnum_source in_class_rest_source)
qed

lemma spec_pattern_iff:
  "MatchString spec_hostname_pattern name \<longleftrightarrow>
     (\<exists>c cs. name = c # cs \<and> alnum c \<and> (\<forall>x\<in>set cs. alnum x \<or> x = CHR ''.'' \<or> x = CHR ''-''))"
proof -
  have "MatchString spec_hostname_pattern name = matches (body spec_hostname_pattern) name"
    by (rule MatchString_anchored) (simp_all add: spec_hostname_pattern_def)
  then show ?thesis
    by (simp add: spec_hostname_pattern_def matches_Class_Star_Class
        in_class_alnum_spec in_class_rest_spec)
qed

lemma alnum_examples:
  "alnum CHR ''c''" "alnum CHR ''r''" "alnum CHR ''1''" "alnum CHR ''a''"
  "\<not> alnum CHR ''-''" "\<not> alnum CHR ''_''" "\<not> alnum CHR ''.''"
  by (simp_all add: alnum_def less_eq_char_def)

text \<open>
  Claim C9. \<open>ValidateHostName\<close> returns whether its argument matches the spec's pattern
  \<^verbatim>\<open>^[A-Za-z0-9][A-Za-z0-9.-]*$\<close>: whether the whole argument is in the language of the
  pattern's body, that is, whether it is a letter or digit followed by letters, digits,
  dots and dashes. It is true for "crc-1" and "a", false for "-crc",
  for "crc_1" and for the empty string.
\<close>

theorem ValidateHostName_spec:
  "ValidateHostName name = MatchString spec_hostname_pattern name \<and>
   ValidateHostName name = (name \<in> lang (body spec_hostname_pattern)) \<and>
   (ValidateHostName name \<longleftrightarrow>
      (\<exists>c cs. name = c # cs \<and> alnum c \<and>
         (\<forall>x\<in>set cs. alnum x \<or> x = CHR ''.'' \<or> x = CHR ''-''))) \<and>
   ValidateHostName ''crc-1'' \<and> ValidateHostName ''a'' \<and>
   \<not> ValidateHostName ''-crc'' \<and> \<not> ValidateHostName ''crc_1'' \<and> \<not> ValidateHostName []"
proof (intro conjI)
  show same: "ValidateHostName name = MatchString spec_hostname_pattern name"
    by (simp add: ValidateHostName_iff spec_pattern_iff)
  have "MatchString spec_hostname_pattern name = matches (body spec_hostname_pattern) name"
    by (rule MatchString_anchored) (simp_all add: spec_hostname_pattern_def)
  with same show "ValidateHostName name = (name \<in> lang (body spec_hostname_pattern))"
    by (simp add: matches_lang)
  show "ValidateHostName name \<longleftrightarrow>
      (\<exists>c cs. name = c # cs \<and> alnum c \<and>
         (\<forall>x\<in>set cs. alnum x \<or> x = CHR ''.'' \<or> x = CHR ''-''))"
    by (rule ValidateHostName_iff)
  show "ValidateHostName ''crc-1''" "ValidateHostName ''a''"
    by (simp_all add: ValidateHostName_iff alnum_examples)
  show "\<not> ValidateHostName ''-crc''" "\<not> ValidateHostName ''crc_1''" "\<not> ValidateHostName []"
    by (simp_all add: ValidateHostName_iff alnum_examples)
qed

theorem ValidateHostName_spec_witness:
  "ValidateHostName ''my.host-01'' \<and> MatchString spec_hostname_pattern ''my.host-01'' \<and>
   alnum CHR ''m'' \<and> \<not> ValidateHostName ''crc 1'' \<and>
   \<not> MatchString spec_hostname_pattern ''crc 1''"
proof -
  have yes: "ValidateHostName ''my.host-01''" and no: "\<not> ValidateHostName ''crc 1''"
    by code_simp+
  from ValidateHostName_spec[of "''my.host-01''"] yes
  have "MatchString spec_hostname_pattern ''my.host-01''" "alnum CHR ''m''"
    by auto
  moreover from ValidateHostName_spec[of "''crc 1''"] no
  have "\<not> MatchString spec_hostname_pattern ''crc 1''"
    by blast
  ultimately show ?thesis using yes no by blast
qed

section \<open>Properties of the preflight checks\<close>

subsection \<open>The vsock check\<close>

text \<open>\<open>strings_Contains\<close> is containment of a contiguous substring.\<close>

lemma strings_Contains_iff: "strings_Contains s substr \<longleftrightarrow> (\<exists>p q. s = p @ substr @ q)"
proof (induction s)
  case Nil
  then show ?case by simp
next
  case (Cons c cs)
  show ?case
  proof
    assume "strings_Contains (c # cs) substr"
    then consider "take (length substr) (c # cs) = substr" | "strings_Contains cs substr"
      by auto
    then show "\<exists>p q. c # cs = p @ substr @ q"
    proof cases
      case 1
      then have "c # cs = [] @ substr @ drop (length substr) (c # cs)"
        by (metis append_Nil append_take_drop_id)
      then show ?thesis by blast
    next
      case 2
      with Cons.IH obtain p q where "cs = p @ substr @ q" by blast
      then have "c # cs = (c # p) @ substr @ q" by simp
      then show ?thesis by blast
    qed
  next
    assume "\<exists>p q. c # cs = p @ substr @ q"
    then obtain p q where pq: "c # cs = p @ substr @ q" by blast
    show "strings_Contains (c # cs) substr"
    proof (cases p)
      case Nil
      with pq have "take (length substr) (c # cs) = substr" by simp
      then show ?thesis by simp
    next
      case (Cons a p')
      with pq have "cs = p' @ substr @ q" by simp
      with Cons.IH have "strings_Contains cs substr" by blast
      then show ?thesis by simp
    qed
  qed
qed

text \<open>
  What the check does: it succeeds exactly when every call it makes succeeds, the output
  of \<open>getcap\<close> contains the capability string, the group of the device is \<open>libvirt\<close> and
  at least one of the two group permission bits (octal 0060) is set.
\<close>

lemma checkVsock_ok_iff:
  "checkVsock env = None \<longleftrightarrow>
     (\<exists>executable getcap stderr info gid.
        os_Executable env = Inr executable \<and>
        RunWithDefaultLocale env ''getcap'' [executable] = (getcap, stderr, None) \<and>
        strings_Contains getcap ''cap_net_bind_service+eip'' \<and>
        os_Stat env ''/dev/vsock'' = Inr info \<and>
        Sys_Gid info = Some gid \<and>
        user_LookupGroupId env (fmt_Sprint (unat gid)) = Inr ''libvirt'' \<and>
        FileMode info AND 48 \<noteq> 0)"
  (is "?lhs \<longleftrightarrow> ?rhs")
proof
  assume ?rhs
  then obtain executable getcap stderr info gid where
    "os_Executable env = Inr executable"
    "RunWithDefaultLocale env ''getcap'' [executable] = (getcap, stderr, None)"
    "strings_Contains getcap ''cap_net_bind_service+eip''"
    "os_Stat env ''/dev/vsock'' = Inr info"
    "Sys_Gid info = Some gid"
    "user_LookupGroupId env (fmt_Sprint (unat gid)) = Inr ''libvirt''"
    "FileMode info AND 48 \<noteq> 0"
    by blast
  then show ?lhs
    by (simp add: checkVsock_def)
next
  assume ok: ?lhs
  obtain executable where exe: "os_Executable env = Inr executable"
    using ok by (cases "os_Executable env") (simp_all add: checkVsock_def)
  obtain getcap stderr e where run: "RunWithDefaultLocale env ''getcap'' [executable] = (getcap, stderr, e)"
    by (metis prod_cases3)
  have e: "e = None"
    using ok exe run by (cases e) (simp_all add: checkVsock_def)
  have cap: "strings_Contains getcap ''cap_net_bind_service+eip''"
    using ok exe run e by (simp add: checkVsock_def split: if_splits)
  obtain info where st: "os_Stat env ''/dev/vsock'' = Inr info"
    using ok exe run e cap by (cases "os_Stat env ''/dev/vsock''") (simp_all add: checkVsock_def)
  obtain gid where gid: "Sys_Gid info = Some gid"
    using ok exe run e cap st by (cases "Sys_Gid info") (simp_all add: checkVsock_def)
  obtain g where grp: "user_LookupGroupId env (fmt_Sprint (unat gid)) = Inr g"
    using ok exe run e cap st gid
    by (cases "user_LookupGroupId env (fmt_Sprint (unat gid))") (simp_all add: checkVsock_def)
  have rest: "g = ''libvirt'' \<and> FileMode info AND 48 \<noteq> 0"
    using ok exe run e cap st gid grp by (simp add: checkVsock_def split: if_splits)
  with exe run e cap st gid grp show ?rhs
    by blast
qed

text \<open>
  Claim C7 says that the check succeeds only if the group may both read and write the
  device. The code tests \<open>mode & 0060 == 0\<close>, so it succeeds on a device of mode 0640
  (decimal 416), where the group \<open>libvirt\<close> may read and not write.
\<close>

theorem checkVsock_group_read_only:
  "checkVsock (demo_env 416) = None \<and> \<not> group_read_write (FileMode \<lparr>Sys_Gid = Some 107, FileMode = 416\<rparr>) \<and>
   os_Stat (demo_env 416) ''/dev/vsock'' = Inr \<lparr>Sys_Gid = Some 107, FileMode = 416\<rparr>"
  by code_simp

subsection \<open>The list of checks\<close>

lemma vsock_notin_libvirt: "vsockPreflightChecks \<notin> set libvirtPreflightChecks"
  by (simp add: vsockPreflightChecks_def libvirtPreflightChecks_def)

lemma commonChecks_eq:
  "commonChecks t = genericPreflightChecks t @ nonWinPreflightChecks t @ libvirtPreflightChecks"
  by (simp add: commonChecks_def)

lemma count_common:
  assumes "vsockPreflightChecks \<notin> set (genericPreflightChecks t)"
    and "vsockPreflightChecks \<notin> set (nonWinPreflightChecks t)"
  shows "count_list (commonChecks t) vsockPreflightChecks = 0"
  using assms vsock_notin_libvirt by (simp add: commonChecks_eq count_list_0_iff)

lemma getPreflightChecksForDistro_checks:
  "fst (getPreflightChecksForDistro t d m) =
     commonChecks t @ (if m = VSockMode then [vsockPreflightChecks] else []) @
     (if d \<noteq> Ubuntu \<and> m = DefaultMode then redhatPreflightChecks t else [])"
  by (cases d) (simp_all add: getPreflightChecksForDistro_def Let_def)

text \<open>
  Claim C3. For every distribution and mode the builder returns, in this order, the
  generic table, the non-Windows table, the libvirt table, then the vsock check exactly
  when the mode is the vsock mode, then the part for the distribution: nothing for Ubuntu,
  the Red Hat table for RHEL, CentOS and Fedora when the mode is the default mode, and for
  any other distribution the Red Hat table when the mode is the default mode, together
  with a warning (no other distribution gives a warning). In the vsock mode the result
  holds the vsock check exactly once, whatever the distribution, provided the generic
  and non-Windows tables, which are parameters here, do not hold it.
\<close>

theorem getPreflightChecksForDistro_shape:
  "fst (getPreflightChecksForDistro t d m) =
     genericPreflightChecks t @ nonWinPreflightChecks t @ libvirtPreflightChecks @
     (if m = VSockMode then [vsockPreflightChecks] else []) @
     (case d of
        Ubuntu \<Rightarrow> []
      | RHEL \<Rightarrow> if m = DefaultMode then redhatPreflightChecks t else []
      | CentOS \<Rightarrow> if m = DefaultMode then redhatPreflightChecks t else []
      | Fedora \<Rightarrow> if m = DefaultMode then redhatPreflightChecks t else []
      | OtherOs s \<Rightarrow> if m = DefaultMode then redhatPreflightChecks t else []) \<and>
   snd (getPreflightChecksForDistro t d m) =
     (case d of
        OtherOs s \<Rightarrow>
          [Warnf ''distribution-specific preflight checks are not implemented for %s''
             (ArgOsType (OtherOs s))]
      | _ \<Rightarrow> []) \<and>
   (vsockPreflightChecks \<notin> set (genericPreflightChecks t) \<and>
    vsockPreflightChecks \<notin> set (nonWinPreflightChecks t) \<longrightarrow>
      count_list (fst (getPreflightChecksForDistro t d VSockMode)) vsockPreflightChecks = 1)"
proof (intro conjI impI)
  show "fst (getPreflightChecksForDistro t d m) =
     genericPreflightChecks t @ nonWinPreflightChecks t @ libvirtPreflightChecks @
     (if m = VSockMode then [vsockPreflightChecks] else []) @
     (case d of
        Ubuntu \<Rightarrow> []
      | RHEL \<Rightarrow> if m = DefaultMode then redhatPreflightChecks t else []
      | CentOS \<Rightarrow> if m = DefaultMode then redhatPreflightChecks t else []
      | Fedora \<Rightarrow> if m = DefaultMode then redhatPreflightChecks t else []
      | OtherOs s \<Rightarrow> if m = DefaultMode then redhatPreflightChecks t else [])"
    by (cases d) (simp_all add: getPreflightChecksForDistro_checks commonChecks_eq)
  show "snd (getPreflightChecksForDistro t d m) =
     (case d of
        OtherOs s \<Rightarrow>
          [Warnf ''distribution-specific preflight checks are not implemented for %s''
             (ArgOsType (OtherOs s))]
      | _ \<Rightarrow> [])"
    by (cases d) (simp_all add: getPreflightChecksForDistro_def Let_def)
next
  assume "vsockPreflightChecks \<notin> set (genericPreflightChecks t) \<and>
    vsockPreflightChecks \<notin> set (nonWinPreflightChecks t)"
  then have "count_list (commonChecks t) vsockPreflightChecks = 0"
    by (simp add: count_common)
  then show "count_list (fst (getPreflightChecksForDistro t d VSockMode)) vsockPreflightChecks = 1"
    by (simp add: getPreflightChecksForDistro_checks)
qed

lemma demo_tables_no_vsock:
  "vsockPreflightChecks \<notin> set (genericPreflightChecks demo_tables)"
  "vsockPreflightChecks \<notin> set (nonWinPreflightChecks demo_tables)"
  "vsockPreflightChecks \<notin> set (redhatPreflightChecks demo_tables)"
  by (simp_all add: demo_tables_def demo_check_def vsockPreflightChecks_def)

theorem getPreflightChecksForDistro_shape_witness:
  "vsockPreflightChecks \<notin> set (genericPreflightChecks demo_tables) \<and>
   vsockPreflightChecks \<notin> set (nonWinPreflightChecks demo_tables) \<and>
   count_list (fst (getPreflightChecksForDistro demo_tables (OtherOs ''arch-unknown-xyz'') VSockMode))
     vsockPreflightChecks = 1 \<and>
   fst (getPreflightChecksForDistro demo_tables (OtherOs ''arch-unknown-xyz'') DefaultMode) =
     genericPreflightChecks demo_tables @ nonWinPreflightChecks demo_tables @ libvirtPreflightChecks @
     redhatPreflightChecks demo_tables \<and>
   snd (getPreflightChecksForDistro demo_tables (OtherOs ''arch-unknown-xyz'') DefaultMode) =
     [Warnf ''distribution-specific preflight checks are not implemented for %s''
        (ArgOsType (OtherOs ''arch-unknown-xyz''))]"
  using getPreflightChecksForDistro_shape[of demo_tables "OtherOs ''arch-unknown-xyz''" DefaultMode]
    demo_tables_no_vsock
  by simp

text \<open>
  Claim C8. \<open>getAllPreflightChecks\<close> returns the list that the builder gives for the
  detected distribution in the default mode, which is the list of \<open>getPreflightChecks\<close>
  in the default mode, with the vsock check appended at the end, and the same warnings.
  So, when the three tables that are parameters here do not hold the vsock check, its
  result holds the vsock check exactly once and its checks are a strict superset of those
  of the default mode.
\<close>

theorem getAllPreflightChecks_shape:
  "fst (getAllPreflightChecks t rel) =
     fst (getPreflightChecksForDistro t (fst (distro rel)) DefaultMode) @ [vsockPreflightChecks] \<and>
   fst (getAllPreflightChecks t rel) =
     fst (getPreflightChecks t rel b DefaultMode) @ [vsockPreflightChecks] \<and>
   snd (getAllPreflightChecks t rel) = snd (getPreflightChecks t rel b DefaultMode) \<and>
   (vsockPreflightChecks \<notin> set (genericPreflightChecks t) \<and>
    vsockPreflightChecks \<notin> set (nonWinPreflightChecks t) \<and>
    vsockPreflightChecks \<notin> set (redhatPreflightChecks t) \<longrightarrow>
      count_list (fst (getAllPreflightChecks t rel)) vsockPreflightChecks = 1 \<and>
      set (fst (getPreflightChecks t rel b DefaultMode)) \<subset> set (fst (getAllPreflightChecks t rel)))"
proof -
  let ?d = "fst (distro rel)"
  let ?base = "fst (getPreflightChecksForDistro t ?d DefaultMode)"
  have all: "fst (getAllPreflightChecks t rel) = ?base @ [vsockPreflightChecks]"
    by (simp add: getAllPreflightChecks_def split: prod.splits)
  have filtered: "fst (getPreflightChecks t rel b DefaultMode) = ?base"
    by (simp add: getPreflightChecks_def split: prod.splits)
  have warn: "snd (getAllPreflightChecks t rel) = snd (getPreflightChecks t rel b DefaultMode)"
    by (simp add: getAllPreflightChecks_def getPreflightChecks_def split: prod.splits)
  have one: "count_list (?base @ [vsockPreflightChecks]) vsockPreflightChecks = 1 \<and>
             set ?base \<subset> set (?base @ [vsockPreflightChecks])"
    if "vsockPreflightChecks \<notin> set (genericPreflightChecks t)"
      "vsockPreflightChecks \<notin> set (nonWinPreflightChecks t)"
      "vsockPreflightChecks \<notin> set (redhatPreflightChecks t)"
  proof -
    from that have notin: "vsockPreflightChecks \<notin> set ?base"
      using vsock_notin_libvirt
      by (simp add: getPreflightChecksForDistro_checks commonChecks_eq)
    then have "count_list ?base vsockPreflightChecks = 0"
      by (simp add: count_list_0_iff)
    with notin show ?thesis by auto
  qed
  from all filtered warn one show ?thesis
    by simp
qed

theorem getAllPreflightChecks_shape_witness:
  "vsockPreflightChecks \<notin> set (genericPreflightChecks demo_tables) \<and>
   vsockPreflightChecks \<notin> set (nonWinPreflightChecks demo_tables) \<and>
   vsockPreflightChecks \<notin> set (redhatPreflightChecks demo_tables) \<and>
   count_list (fst (getAllPreflightChecks demo_tables (Inr Fedora))) vsockPreflightChecks = 1 \<and>
   set (fst (getPreflightChecks demo_tables (Inr Fedora) True DefaultMode)) \<subset>
     set (fst (getAllPreflightChecks demo_tables (Inr Fedora)))"
  using getAllPreflightChecks_shape[of demo_tables "Inr Fedora" True] demo_tables_no_vsock
  by blast

subsection \<open>The entry points\<close>

text \<open>
  Claim C10. \<open>getPreflightChecks\<close> ignores its boolean parameter: for every network mode
  and any two booleans the results (checks and warnings) are the same.
\<close>

theorem getPreflightChecks_ignores_bool:
  "getPreflightChecks t osRelease b1 networkMode = getPreflightChecks t osRelease b2 networkMode"
  by (simp add: getPreflightChecks_def)

end
